theory Spec2Isabelle
  imports Main "HOL-Library.Sublist" "HOL-Library.Word" "HOL-Library.Code_Target_Numeral"
begin

section \<open>Python values of the helper module\<close>

text \<open>
  The module \<^verbatim>\<open>functions_complete.py\<close> is a collection of helper functions on
  strings. A Python \<^verbatim>\<open>str\<close> is modelled as a HOL \<^typ>\<open>string\<close>: a list of
  characters with code points below 256. An exception that a function raises is a value
  \<open>Inl e\<close> of the result type; a normal return is \<open>Inr v\<close>.
\<close>

datatype exn =
    TimeoutException
  | NoSuchElementException
  | ElementNotInteractableException
  | IndexError
  | TypeError
  | ValueError
  | OverflowError
  | InvalidOperation
  | OtherError string

subsection \<open>String primitives of Python\<close>

text \<open>\<^verbatim>\<open>s.find(sub)\<close>: the index of the first occurrence of \<open>sub\<close> in \<open>s\<close>.\<close>

fun str_find :: "string \<Rightarrow> string \<Rightarrow> nat option" where
  "str_find [] sub = (if sub = [] then Some 0 else None)"
| "str_find (c # cs) sub =
     (if prefix sub (c # cs) then Some 0 else map_option Suc (str_find cs sub))"

text \<open>\<^verbatim>\<open>sub in s\<close>.\<close>

definition str_contains :: "string \<Rightarrow> string \<Rightarrow> bool" where
  "str_contains s sub = (str_find s sub \<noteq> None)"

text \<open>
  \<^verbatim>\<open>sep.join(xs)\<close>; \<^verbatim>\<open>"".join(xs)\<close> is \<open>str_join [] xs\<close>, the concatenation.
\<close>

definition str_join :: "string \<Rightarrow> string list \<Rightarrow> string" where
  "str_join sep xs = (case xs of [] \<Rightarrow> [] | y # ys \<Rightarrow> y @ concat (map (\<lambda>x. sep @ x) ys))"

text \<open>
  \<^verbatim>\<open>c.isspace()\<close> and \<^verbatim>\<open>c.isdigit()\<close> for one character below code point 256:
  the white space of \<^verbatim>\<open>split()\<close> and \<^verbatim>\<open>strip()\<close> is TAB..CR, FS..US, the space,
  NEL (133) and the no-break space (160); the digits of \<^verbatim>\<open>isdigit\<close> are \<open>0\<close>..\<open>9\<close>
  and the superscripts two, three and one (178, 179, 185), which \<^verbatim>\<open>int()\<close> and
  \<^verbatim>\<open>Decimal()\<close> do not accept (they take the decimal digits only).
\<close>

definition isspace :: "char \<Rightarrow> bool" where
  "isspace c = (let n = (of_char c :: nat) in
     (9 \<le> n \<and> n \<le> 13) \<or> (28 \<le> n \<and> n \<le> 32) \<or> n = 133 \<or> n = 160)"

definition isdigit :: "char \<Rightarrow> bool" where
  "isdigit c = (let n = (of_char c :: nat) in
     (48 \<le> n \<and> n \<le> 57) \<or> n = 178 \<or> n = 179 \<or> n = 185)"

definition isdecimal :: "char \<Rightarrow> bool" where
  "isdecimal c = (let n = (of_char c :: nat) in 48 \<le> n \<and> n \<le> 57)"

text \<open>\<^verbatim>\<open>s.isdigit()\<close>: every character is a digit and there is at least one.\<close>

definition str_isdigit :: "string \<Rightarrow> bool" where
  "str_isdigit s = (s \<noteq> [] \<and> list_all isdigit s)"

text \<open>\<^verbatim>\<open>s.strip()\<close>: white space removed at both ends.\<close>

definition str_strip :: "string \<Rightarrow> string" where
  "str_strip s = rev (dropWhile isspace (rev (dropWhile isspace s)))"

text \<open>
  \<^verbatim>\<open>s.split()\<close>: the maximal runs of characters that are not white space, in order;
  no empty token.
\<close>

fun str_split :: "string \<Rightarrow> string list" where
  "str_split [] = []"
| "str_split (c # cs) =
     (if isspace c then str_split cs
      else (case cs of
              [] \<Rightarrow> [[c]]
            | d # ds \<Rightarrow>
                if isspace d then [c] # str_split cs
                else (case str_split cs of [] \<Rightarrow> [[c]] | w # ws \<Rightarrow> (c # w) # ws)))"

text \<open>
  \<^verbatim>\<open>s.split(sep)\<close> for a separator that is not empty (every call of the module passes
  a literal: \<open>cm\<close>, a period or a hyphen; Python raises ValueError on an empty one):
  the fields between the occurrences of \<open>sep\<close>, found from the left without overlap.
\<close>

function str_split_sep :: "string \<Rightarrow> string \<Rightarrow> string list" where
  "str_split_sep [] sep = [[]]"
| "str_split_sep (c # cs) sep =
     (if sep \<noteq> [] \<and> prefix sep (c # cs)
      then [] # str_split_sep (drop (length sep) (c # cs)) sep
      else (case str_split_sep cs sep of [] \<Rightarrow> [[c]] | w # ws \<Rightarrow> (c # w) # ws))"
  by pat_completeness auto
termination
  by (relation "measure (\<lambda>(s, sep). length s)") (auto simp: neq_Nil_conv)

text \<open>
  \<^verbatim>\<open>s.replace(old, new)\<close>: every occurrence of \<open>old\<close>, from the left without overlap,
  becomes \<open>new\<close>; an empty \<open>old\<close> matches before every character and at the end.
\<close>

definition str_replace :: "string \<Rightarrow> string \<Rightarrow> string \<Rightarrow> string" where
  "str_replace s old new =
     (if old = [] then new @ concat (map (\<lambda>c. c # new) s)
      else str_join new (str_split_sep s old))"

text \<open>
  \<^verbatim>\<open>int(s)\<close> for a string: white space is stripped at both ends, one sign is allowed,
  then decimal digits, where single underscores may stand between digits. Anything else
  raises ValueError, and so does a literal of more than 4300 digits (the default of
  \<^verbatim>\<open>sys.set_int_max_str_digits\<close>). The white space of \<^verbatim>\<open>int\<close> is narrower than
  that of \<^verbatim>\<open>strip()\<close>: the separators FS..US (28 to 31) are not stripped, so
  \<^verbatim>\<open>int('\x1c7')\<close> raises ValueError.
\<close>

definition int_isspace :: "char \<Rightarrow> bool" where
  "int_isspace c = (let n = (of_char c :: nat) in
     (9 \<le> n \<and> n \<le> 13) \<or> n = 32 \<or> n = 133 \<or> n = 160)"

definition int_strip :: "string \<Rightarrow> string" where
  "int_strip s = rev (dropWhile int_isspace (rev (dropWhile int_isspace s)))"

fun int_literal :: "string \<Rightarrow> bool" where
  "int_literal [] = False"
| "int_literal [c] = isdecimal c"
| "int_literal (c # d # cs) =
     (isdecimal c \<and> (if d = CHR ''_'' then int_literal cs else int_literal (d # cs)))"

definition digits_value :: "string \<Rightarrow> nat" where
  "digits_value ds = foldl (\<lambda>a c. 10 * a + (of_char c - 48)) 0 ds"

definition py_int :: "string \<Rightarrow> exn + int" where
  "py_int s =
     (let t = int_strip s;
          neg = (case t of [] \<Rightarrow> False | c # _ \<Rightarrow> c = CHR ''-'');
          body = (case t of [] \<Rightarrow> [] | c # cs \<Rightarrow> if c = CHR ''-'' \<or> c = CHR ''+'' then cs else t);
          ds = filter (\<lambda>c. c \<noteq> CHR ''_'') body
      in if \<not> int_literal body \<or> 4300 < length ds then Inl ValueError
         else Inr (if neg then - int (digits_value ds) else int (digits_value ds)))"

section \<open>Refine functions\<close>

text \<open>
  \<^verbatim>\<open>
  def refine_price_val(price_string):
      debt_value_refined = "".join(
          [i for i in price_string.replace(',', '.').split() if i.replace('.', '').isdigit()])
      return debt_value_refined or '0'
  \<close>
  The token filter is shared by the four refine functions.
\<close>

definition digit_tokens :: "string \<Rightarrow> string" where
  "digit_tokens s =
     str_join [] (filter (\<lambda>i. str_isdigit (str_replace i ''.'' [])) (str_split s))"


text \<open>
  \<^verbatim>\<open>
  def refine_eng_capacity(eng_cap_str):
      eng_cap_str = "".join(eng_cap_str.replace(',', '.').strip().split('cm')[:-1])
      try:
          return int("".join(
              [i for i in eng_cap_str.strip().split() if i.replace('.', '').isdigit()]))
      except ValueError:
          return 0
  \<close>
  \<^verbatim>\<open>xs[:-1]\<close> is \<^const>\<open>butlast\<close>. The handler catches ValueError only.
\<close>

definition except_ValueError :: "exn + 'a \<Rightarrow> 'a \<Rightarrow> exn + 'a" where
  "except_ValueError r d =
     (case r of Inr v \<Rightarrow> Inr v | Inl e \<Rightarrow> if e = ValueError then Inr d else Inl e)"

definition refine_eng_capacity :: "string \<Rightarrow> exn + int" where
  "refine_eng_capacity eng_cap_str =
     (let eng_cap_str' =
            str_join [] (butlast (str_split_sep (str_strip (str_replace eng_cap_str '','' ''.'')) ''cm''))
      in except_ValueError (py_int (digit_tokens (str_strip eng_cap_str'))) 0)"




section \<open>Substring translation\<close>

text \<open>
  \<^verbatim>\<open>
  def translate_word_containing_substring(s, translator_tuple):
      return "".join(next(iter(list(filter(lambda x: x[0] in s, translator_tuple))), ('', ''))[1])
  \<close>
  \<^verbatim>\<open>next(iter(xs), d)\<close> is the first element of \<open>xs\<close>, or \<open>d\<close> when \<open>xs\<close> is
  empty; \<^verbatim>\<open>"".join\<close> of a string is that string.
\<close>

definition next_iter :: "'a list \<Rightarrow> 'a \<Rightarrow> 'a" where
  "next_iter xs d = (case xs of [] \<Rightarrow> d | x # _ \<Rightarrow> x)"

definition translate_word_containing_substring :: "string \<Rightarrow> (string \<times> string) list \<Rightarrow> string" where
  "translate_word_containing_substring s translator_tuple =
     str_join []
       (map (\<lambda>c. [c])
          (snd (next_iter (filter (\<lambda>x. str_contains s (fst x)) translator_tuple) ([], []))))"

section \<open>Hashing\<close>

text \<open>
  \<^verbatim>\<open>
  def calculate_md5(text):
      return hashlib.md5(text.encode("utf-8")).hexdigest()

  def calculate_hash(text, salt="", shift=0):
      hash_digest = hashlib.md5((text + salt).encode("UTF-8")).digest()
      shifted_digest = bytes((byte + shift) % 256 for byte in hash_digest)
      return shifted_digest.hex()
  \<close>
  The digest function of \<^verbatim>\<open>hashlib\<close> is a parameter \<open>hashlib_md5\<close> from bytes to
  bytes. UTF-8 takes a code point below 128 to one byte and one below 256 to two.
  \<^verbatim>\<open>bytes(xs)\<close> raises ValueError when an element is outside \<open>0..255\<close>; Python's
  \<^verbatim>\<open>%\<close> on integers is \<open>mod\<close>. \<^verbatim>\<open>hexdigest()\<close> is \<^verbatim>\<open>digest().hex()\<close>.
\<close>

type_synonym byte = "8 word"

definition utf8_encode :: "string \<Rightarrow> byte list" where
  "utf8_encode s =
     concat (map (\<lambda>c. let n = (of_char c :: nat) in
                        if n < 128 then [of_nat n]
                        else [of_nat (192 + n div 64), of_nat (128 + n mod 64)]) s)"

definition hex_digit :: "nat \<Rightarrow> char" where
  "hex_digit n = ''0123456789abcdef'' ! n"

definition bytes_hex :: "byte list \<Rightarrow> string" where
  "bytes_hex bs = concat (map (\<lambda>b. [hex_digit (unat b div 16), hex_digit (unat b mod 16)]) bs)"

definition py_bytes :: "int list \<Rightarrow> exn + byte list" where
  "py_bytes xs =
     (if list_all (\<lambda>x. 0 \<le> x \<and> x < 256) xs then Inr (map word_of_int xs) else Inl ValueError)"

definition calculate_md5 :: "(byte list \<Rightarrow> byte list) \<Rightarrow> string \<Rightarrow> string" where
  "calculate_md5 hashlib_md5 text = bytes_hex (hashlib_md5 (utf8_encode text))"

definition calculate_hash :: "(byte list \<Rightarrow> byte list) \<Rightarrow> string \<Rightarrow> string \<Rightarrow> int \<Rightarrow> exn + string" where
  "calculate_hash hashlib_md5 text salt shift =
     (let hash_digest = hashlib_md5 (utf8_encode (text @ salt))
      in case py_bytes (map (\<lambda>byte. (uint byte + shift) mod 256) hash_digest) of
           Inl e \<Rightarrow> Inl e
         | Inr shifted_digest \<Rightarrow> Inr (bytes_hex shifted_digest))"

section \<open>Decorators\<close>

text \<open>
  \<^verbatim>\<open>
  def wait_for(func):
      def decorator(*args, **kwargs):
          try:
              return func(*args, **kwargs)
          except (TimeoutException, NoSuchElementException, ElementNotInteractableException):
              return None
      return decorator
  \<close>
  \<^verbatim>\<open>wait_for_list\<close> returns \<^verbatim>\<open>list()\<close> and \<^verbatim>\<open>get_func_or_eptstr\<close> returns \<^verbatim>\<open>''\<close>
  in the handler. The wrapped function is any function from its arguments \<open>args\<close> and
  the state \<open>st\<close> of the world it works on (the browser session) to a result and the
  state it leaves. The values it returns are Python values; an element or any other
  object is \<open>PyObj\<close> with its identity. An exception of a class other than those of
  this module's handlers is \<open>OtherError\<close> with its class name.
\<close>

datatype pyval = PyNone | PyStr string | PyList "pyval list" | PyObj nat

definition contained :: "exn \<Rightarrow> bool" where
  "contained e =
     (e = TimeoutException \<or> e = NoSuchElementException \<or> e = ElementNotInteractableException)"

definition wait_for :: "('a \<Rightarrow> 's \<Rightarrow> (exn + pyval) \<times> 's) \<Rightarrow> 'a \<Rightarrow> 's \<Rightarrow> (exn + pyval) \<times> 's" where
  "wait_for func args st =
     (case func args st of
        (Inr v, st') \<Rightarrow> (Inr v, st')
      | (Inl e, st') \<Rightarrow> if contained e then (Inr PyNone, st') else (Inl e, st'))"

definition wait_for_list :: "('a \<Rightarrow> 's \<Rightarrow> (exn + pyval) \<times> 's) \<Rightarrow> 'a \<Rightarrow> 's \<Rightarrow> (exn + pyval) \<times> 's" where
  "wait_for_list func args st =
     (case func args st of
        (Inr v, st') \<Rightarrow> (Inr v, st')
      | (Inl e, st') \<Rightarrow> if contained e then (Inr (PyList []), st') else (Inl e, st'))"

definition get_func_or_eptstr :: "('a \<Rightarrow> 's \<Rightarrow> (exn + pyval) \<times> 's) \<Rightarrow> 'a \<Rightarrow> 's \<Rightarrow> (exn + pyval) \<times> 's" where
  "get_func_or_eptstr func args st =
     (case func args st of
        (Inr v, st') \<Rightarrow> (Inr v, st')
      | (Inl e, st') \<Rightarrow> if contained e then (Inr (PyStr []), st') else (Inl e, st'))"

text \<open>A wrapped function for the examples: it finds an element for argument 0, times
  out for 1 and fails with another exception otherwise, and counts its calls.\<close>

definition lookup_example :: "nat \<Rightarrow> nat \<Rightarrow> (exn + pyval) \<times> nat" where
  "lookup_example args st =
     (if args = 0 then Inr (PyObj 7)
      else if args = 1 then Inl TimeoutException
      else Inl (OtherError ''WebDriverException''), Suc st)"

section \<open>Waiting for the page\<close>

text \<open>
  \<^verbatim>\<open>
  def buffer_until_page_fully_loaded(driver, tsleep=2):
      md5 = hashlib.md5(bytearray(driver.page_source, 'utf-8')).hexdigest()
      changed = False
      while changed:
          time.sleep(tsleep)
          md5new = hashlib.md5(bytearray(driver.page_source, 'utf-8')).hexdigest()
          changed = md5 != md5new
          md5 = md5new
  \<close>
  The session records what the function does to the world: \<open>page_at w n\<close> is the markup
  the driver serves at its \<open>n\<close>-th read, \<open>reads\<close> counts the reads of
  \<^verbatim>\<open>driver.page_source\<close>, and \<open>events\<close> lists the reads and the sleeps in order.
  Every read returns the markup (a read that raises is outside the model). The loop
  may run forever (a page that changes at every read), so it is a partial function:
  \<open>None\<close> is not returning.
\<close>

datatype 't event = PageSource | Sleep 't

record 't session =
  page_at :: "nat \<Rightarrow> string"
  reads :: nat
  events :: "'t event list"

definition page_source :: "'t session \<Rightarrow> string \<times> 't session" where
  "page_source w = (page_at w (reads w), w\<lparr>reads := Suc (reads w), events := events w @ [PageSource]\<rparr>)"

definition time_sleep :: "'t \<Rightarrow> 't session \<Rightarrow> 't session" where
  "time_sleep secs w = w\<lparr>events := events w @ [Sleep secs]\<rparr>"

partial_function (option) page_loop ::
  "(byte list \<Rightarrow> byte list) \<Rightarrow> 't \<Rightarrow> bool \<Rightarrow> string \<Rightarrow> 't session \<Rightarrow> 't session option" where
  "page_loop hashlib_md5 tsleep changed md5 w =
     (if changed then
        (let w1 = time_sleep tsleep w;
             src = fst (page_source w1);
             w2 = snd (page_source w1);
             md5new = bytes_hex (hashlib_md5 (utf8_encode src))
         in page_loop hashlib_md5 tsleep (md5 \<noteq> md5new) md5new w2)
      else Some w)"

definition buffer_until_page_fully_loaded ::
  "(byte list \<Rightarrow> byte list) \<Rightarrow> 't session \<Rightarrow> 't \<Rightarrow> 't session option" where
  "buffer_until_page_fully_loaded hashlib_md5 driver tsleep =
     (let src = fst (page_source driver);
          w = snd (page_source driver);
          md5 = bytes_hex (hashlib_md5 (utf8_encode src));
          changed = False
      in page_loop hashlib_md5 tsleep changed md5 w)"

section \<open>Normalization functions\<close>

text \<open>
  \<^verbatim>\<open>
  def normalize_string(s):
      return "".join([i.replace(i, normalize_char(i)) for i in s])

  def normalize_char(c):
      try:
          cname = unicodedata.name(c)
          cname = cname[:cname.index(' WITH')]
          return unicodedata.lookup(cname)
      except (ValueError, KeyError):
          return c
  \<close>
  The Unicode character database is a parameter: \<open>uname c\<close> is the name of the
  character \<open>c\<close> (\<open>None\<close> where \<^verbatim>\<open>unicodedata.name\<close> raises ValueError) and
  \<open>ulookup n\<close> the string that \<^verbatim>\<open>unicodedata.lookup\<close> returns for the name \<open>n\<close>
  (\<open>None\<close> where it raises KeyError). Characters are of any type \<open>'c\<close>, so all code
  points are covered. \<^verbatim>\<open>cname.index\<close> raises ValueError where \<open>str_find\<close> is \<open>None\<close>.
  For a string \<open>i\<close> of one character, \<^verbatim>\<open>i.replace(i, x)\<close> is \<open>x\<close>.
\<close>

definition normalize_char :: "('c \<Rightarrow> string option) \<Rightarrow> (string \<Rightarrow> 'c list option) \<Rightarrow> 'c \<Rightarrow> 'c list" where
  "normalize_char uname ulookup c =
     (case uname c of
        None \<Rightarrow> [c]
      | Some cname \<Rightarrow>
          (case str_find cname '' WITH'' of
             None \<Rightarrow> [c]
           | Some i \<Rightarrow> (case ulookup (take i cname) of None \<Rightarrow> [c] | Some r \<Rightarrow> r)))"

definition normalize_string :: "('c \<Rightarrow> string option) \<Rightarrow> (string \<Rightarrow> 'c list option) \<Rightarrow> 'c list \<Rightarrow> 'c list" where
  "normalize_string uname ulookup s = concat (map (\<lambda>i. normalize_char uname ulookup i) s)"

text \<open>
  A property of the character database: when the name of a character has a part
  \<open>WITH\<close> and the name before that part resolves, it resolves to the one character
  that bears exactly this shorter name.
\<close>

definition base_names_resolve :: "('c \<Rightarrow> string option) \<Rightarrow> (string \<Rightarrow> 'c list option) \<Rightarrow> bool" where
  "base_names_resolve uname ulookup =
     (\<forall>c cname i r. uname c = Some cname \<and> str_find cname '' WITH'' = Some i
          \<and> ulookup (take i cname) = Some r
        \<longrightarrow> (\<exists>d. r = [d] \<and> uname d = Some (take i cname)))"

text \<open>An excerpt of the database for the examples, with code points as numbers.\<close>

definition uname_excerpt :: "nat \<Rightarrow> string option" where
  "uname_excerpt c =
     (if c = 233 then Some ''LATIN SMALL LETTER E WITH ACUTE''
      else if c = 101 then Some ''LATIN SMALL LETTER E''
      else if c = 322 then Some ''LATIN SMALL LETTER L WITH STROKE''
      else if c = 108 then Some ''LATIN SMALL LETTER L''
      else if c = 120 then Some ''LATIN SMALL LETTER X''
      else None)"

definition ulookup_excerpt :: "string \<Rightarrow> nat list option" where
  "ulookup_excerpt n =
     (if n = ''LATIN SMALL LETTER E WITH ACUTE'' then Some [233]
      else if n = ''LATIN SMALL LETTER E'' then Some [101]
      else if n = ''LATIN SMALL LETTER L WITH STROKE'' then Some [322]
      else if n = ''LATIN SMALL LETTER L'' then Some [108]
      else if n = ''LATIN SMALL LETTER X'' then Some [120]
      else None)"

section \<open>Sequencing and indexing\<close>

text \<open>
  An expression is evaluated from the left; the first exception ends it.
  \<^verbatim>\<open>xs[i]\<close> raises IndexError outside the list and counts a negative index from the
  end.
\<close>

definition and_then :: "exn + 'a \<Rightarrow> ('a \<Rightarrow> exn + 'b) \<Rightarrow> exn + 'b" where
  "and_then r f = (case r of Inl e \<Rightarrow> Inl e | Inr v \<Rightarrow> f v)"

definition py_index :: "'a list \<Rightarrow> int \<Rightarrow> exn + 'a" where
  "py_index xs i =
     (let n = int (length xs); j = (if i < 0 then n + i else i)
      in if 0 \<le> j \<and> j < n then Inr (xs ! nat j) else Inl IndexError)"

section \<open>Decimals\<close>

text \<open>
  A finite \<^verbatim>\<open>decimal.Decimal\<close> is a sign, a coefficient and an exponent.
  \<^verbatim>\<open>Decimal(s)\<close> strips white space and underscores and reads a sign, digits with at
  most one period and at least one digit, and an exponent part; a string of another
  form raises InvalidOperation (the literals for infinity and NaN are left out: the
  strings this module passes hold digits, periods and the float's \<open>e\<close> only). The
  conversion is exact.
\<close>

record decimal =
  negative :: bool
  coefficient :: nat
  exponent :: int

definition signed_digits :: "string \<Rightarrow> int option" where
  "signed_digits s =
     (let neg = (case s of [] \<Rightarrow> False | c # _ \<Rightarrow> c = CHR ''-'');
          ds = (case s of [] \<Rightarrow> [] | c # cs \<Rightarrow> if c = CHR ''-'' \<or> c = CHR ''+'' then cs else s)
      in if ds \<noteq> [] \<and> list_all isdecimal ds
         then Some (if neg then - int (digits_value ds) else int (digits_value ds))
         else None)"

definition Decimal :: "string \<Rightarrow> exn + decimal" where
  "Decimal s =
     (let t = filter (\<lambda>c. c \<noteq> CHR ''_'') (str_strip s);
          neg = (case t of [] \<Rightarrow> False | c # _ \<Rightarrow> c = CHR ''-'');
          u = (case t of [] \<Rightarrow> [] | c # cs \<Rightarrow> if c = CHR ''-'' \<or> c = CHR ''+'' then cs else t);
          ip = takeWhile isdecimal u;
          r1 = dropWhile isdecimal u;
          fp = (case r1 of [] \<Rightarrow> [] | c # cs \<Rightarrow> if c = CHR ''.'' then takeWhile isdecimal cs else []);
          r2 = (case r1 of [] \<Rightarrow> [] | c # cs \<Rightarrow> if c = CHR ''.'' then dropWhile isdecimal cs else r1);
          ex = (case r2 of
                  [] \<Rightarrow> Some 0
                | c # cs \<Rightarrow> if c = CHR ''e'' \<or> c = CHR ''E'' then signed_digits cs else None)
      in if ip @ fp = [] then Inl InvalidOperation
         else case ex of
                None \<Rightarrow> Inl InvalidOperation
              | Some e \<Rightarrow>
                  Inr \<lparr>negative = neg, coefficient = digits_value (ip @ fp),
                       exponent = e - int (length fp)\<rparr>)"

text \<open>
  \<^verbatim>\<open>d.quantize(q)\<close> in the default context (28 digits of precision, rounding half to
  even): the value of \<open>d\<close> at the exponent of \<open>q\<close>. A zero keeps its sign and takes the
  exponent. InvalidOperation is raised when the result would need more than 28 digits.
\<close>

function num_digits :: "nat \<Rightarrow> nat" where
  "num_digits n = (if n < 10 then 1 else Suc (num_digits (n div 10)))"
  by pat_completeness auto
termination
  by (relation "measure id") auto

declare num_digits.simps [simp del]

definition round_half_even :: "nat \<Rightarrow> nat \<Rightarrow> nat" where
  "round_half_even c k =
     (let q = c div 10 ^ k; r = c mod 10 ^ k
      in if 10 ^ k < 2 * r \<or> (2 * r = 10 ^ k \<and> odd q) then q + 1 else q)"

definition quantize :: "decimal \<Rightarrow> decimal \<Rightarrow> exn + decimal" where
  "quantize d q =
     (let e = exponent q
      in if coefficient d = 0 then Inr \<lparr>negative = negative d, coefficient = 0, exponent = e\<rparr>
         else if 28 < int (num_digits (coefficient d)) + exponent d - e then Inl InvalidOperation
         else (let c = (if e \<le> exponent d then coefficient d * 10 ^ nat (exponent d - e)
                        else round_half_even (coefficient d) (nat (e - exponent d)))
               in if 28 < num_digits c then Inl InvalidOperation
                  else Inr \<lparr>negative = negative d, coefficient = c, exponent = e\<rparr>))"

text \<open>
  \<^verbatim>\<open>
  def prep_decimal_from_string(s, precision_fp=2):
      if precision_fp > 20:
          raise ValueError('Precision has to be smaller than 1E-20')
      precision = str(1 / (10 ** precision_fp))
      if not s.replace('.', '').isdigit():
          return Decimal('0').quantize(Decimal(precision))
      return Decimal(s).quantize(Decimal(precision))
  \<close>
  \<open>float_recip_pow10_str p\<close> is \<^verbatim>\<open>str(1 / (10 ** p))\<close> for a precision \<open>p\<close> from 0 to
  20, as a table: the quotient is the float nearest to the power of ten, and Python
  prints its shortest representation, \<open>1.0\<close> for 0, positional down to \<open>0.0001\<close> and
  with an exponent from \<open>1e-05\<close>. The precision is a natural number: a negative one
  gives a float of another form.
\<close>

definition float_recip_pow10_str :: "nat \<Rightarrow> string" where
  "float_recip_pow10_str p =
     [''1.0'', ''0.1'', ''0.01'', ''0.001'', ''0.0001'', ''1e-05'', ''1e-06'', ''1e-07'', ''1e-08'',
      ''1e-09'', ''1e-10'', ''1e-11'', ''1e-12'', ''1e-13'', ''1e-14'', ''1e-15'', ''1e-16'',
      ''1e-17'', ''1e-18'', ''1e-19'', ''1e-20''] ! p"

definition prep_decimal_from_string :: "string \<Rightarrow> nat \<Rightarrow> exn + decimal" where
  "prep_decimal_from_string s precision_fp =
     (if 20 < precision_fp then Inl ValueError
      else (let precision = float_recip_pow10_str precision_fp
            in if \<not> str_isdigit (str_replace s ''.'' [])
               then and_then (Decimal ''0'') (\<lambda>z. and_then (Decimal precision) (\<lambda>q. quantize z q))
               else and_then (Decimal s) (\<lambda>d. and_then (Decimal precision) (\<lambda>q. quantize d q))))"

text \<open>
  The plain decimal numerals: \<open>plain_decimal s ip fp\<close> says that \<open>s\<close> is written with
  the decimal digits \<open>ip\<close>, followed or not by a period and the decimal digits \<open>fp\<close>,
  with at least one digit.
\<close>

definition plain_decimal :: "string \<Rightarrow> string \<Rightarrow> string \<Rightarrow> bool" where
  "plain_decimal s ip fp =
     (list_all isdecimal ip \<and> list_all isdecimal fp \<and> ip @ fp \<noteq> []
      \<and> (s = ip @ ''.'' @ fp \<or> (fp = [] \<and> s = ip)))"

section \<open>Date functions\<close>

text \<open>
  \<^verbatim>\<open>datetime(year, month, day)\<close>: the three arguments are converted to C integers in
  order (OverflowError outside 32 bits, TypeError for \<^verbatim>\<open>None\<close>), then checked:
  ValueError unless the year is in 1..9999, the month in 1..12 and the day in the month.
\<close>

record date =
  year :: int
  month :: int
  day :: int

definition c_int :: "int \<Rightarrow> bool" where
  "c_int n = (- (2 ^ 31) \<le> n \<and> n < 2 ^ 31)"

definition is_leap :: "int \<Rightarrow> bool" where
  "is_leap y = (y mod 4 = 0 \<and> (y mod 100 \<noteq> 0 \<or> y mod 400 = 0))"

definition days_in_month :: "int \<Rightarrow> int \<Rightarrow> int" where
  "days_in_month y m =
     (if m = 2 then (if is_leap y then 29 else 28)
      else if m = 4 \<or> m = 6 \<or> m = 9 \<or> m = 11 then 30 else 31)"

definition datetime :: "int \<Rightarrow> int option \<Rightarrow> int \<Rightarrow> exn + date" where
  "datetime y m d =
     (if \<not> c_int y then Inl OverflowError
      else case m of
        None \<Rightarrow> Inl TypeError
      | Some m' \<Rightarrow>
          if \<not> c_int m' \<or> \<not> c_int d then Inl OverflowError
          else if y < 1 \<or> 9999 < y then Inl ValueError
          else if m' < 1 \<or> 12 < m' then Inl ValueError
          else if d < 1 \<or> days_in_month y m' < d then Inl ValueError
          else Inr \<lparr>year = y, month = m', day = d\<rparr>)"

text \<open>
  The formats of this module hold the directives \<open>%d\<close>, \<open>%m\<close>, \<open>%Y\<close>, \<open>%y\<close> and
  literal characters. \<^verbatim>\<open>strftime\<close> writes the day and the month with two digits and
  the year (1 to 9999) in full without padding, as CPython does on Linux: 999 for the
  year 999, where other platforms print 0999. \<^verbatim>\<open>strptime\<close> matches the string against the format: \<open>%d\<close> is
  two digits from 01 to 31, or one digit from 1 to 9, also after a space; \<open>%m\<close> is two
  digits from 01 to 12 or one from 1 to 9; \<open>%Y\<close> is four digits and \<open>%y\<close> two (00 to 68
  are the years from 2000, 69 to 99 those from 1969); the alternatives are tried in
  this order and the whole string must be used. A string that does not match raises
  ValueError, and so does a date that does not exist.
\<close>

datatype directive = Dir_d | Dir_m | Dir_Y | Dir_y | Lit char

fun parse_format :: "string \<Rightarrow> directive list" where
  "parse_format [] = []"
| "parse_format [c] = [Lit c]"
| "parse_format (c # d # cs) =
     (if c = CHR ''%'' then
        (if d = CHR ''d'' then Dir_d else if d = CHR ''m'' then Dir_m
         else if d = CHR ''Y'' then Dir_Y else if d = CHR ''y'' then Dir_y else Lit d)
        # parse_format cs
      else Lit c # parse_format (d # cs))"

definition zero_pad :: "nat \<Rightarrow> int \<Rightarrow> string" where
  "zero_pad w n = map (\<lambda>k. ''0123456789'' ! ((nat n div 10 ^ k) mod 10)) (rev [0..<w])"

fun strftime_field :: "date \<Rightarrow> directive \<Rightarrow> string" where
  "strftime_field dt Dir_d = zero_pad 2 (day dt)"
| "strftime_field dt Dir_m = zero_pad 2 (month dt)"
| "strftime_field dt Dir_Y = dropWhile (\<lambda>c. c = CHR ''0'') (zero_pad 4 (year dt))"
| "strftime_field dt Dir_y = zero_pad 2 (year dt mod 100)"
| "strftime_field dt (Lit c) = [c]"

definition strftime :: "date \<Rightarrow> string \<Rightarrow> string" where
  "strftime dt fmt = concat (map (strftime_field dt) (parse_format fmt))"

definition two_digits :: "nat \<Rightarrow> nat \<Rightarrow> string \<Rightarrow> (nat \<times> string) list" where
  "two_digits lo hi s =
     (case s of
        a # b # r \<Rightarrow>
          if isdecimal a \<and> isdecimal b \<and> lo \<le> digits_value [a, b] \<and> digits_value [a, b] \<le> hi
          then [(digits_value [a, b], r)] else []
      | _ \<Rightarrow> [])"

definition one_digit :: "string \<Rightarrow> (nat \<times> string) list" where
  "one_digit s =
     (case s of
        a # r \<Rightarrow> if isdecimal a \<and> a \<noteq> CHR ''0'' then [(digits_value [a], r)] else []
      | _ \<Rightarrow> [])"

fun field_matches :: "directive \<Rightarrow> string \<Rightarrow> (nat \<times> string) list" where
  "field_matches Dir_d s =
     two_digits 1 31 s @ one_digit s
     @ (case s of c # r \<Rightarrow> if c = CHR '' '' then one_digit r else [] | _ \<Rightarrow> [])"
| "field_matches Dir_m s = two_digits 1 12 s @ one_digit s"
| "field_matches Dir_y s = two_digits 0 99 s"
| "field_matches Dir_Y s =
     (case s of
        a # b # c # d # r \<Rightarrow>
          if list_all isdecimal [a, b, c, d] then [(digits_value [a, b, c, d], r)] else []
      | _ \<Rightarrow> [])"
| "field_matches (Lit c) s = (case s of x # r \<Rightarrow> if x = c then [(0, r)] else [] | _ \<Rightarrow> [])"

definition first_some :: "'a option list \<Rightarrow> 'a option" where
  "first_some xs = (case filter (\<lambda>x. x \<noteq> None) xs of [] \<Rightarrow> None | x # _ \<Rightarrow> x)"

fun strp :: "directive list \<Rightarrow> string \<Rightarrow> (directive \<times> nat) list option" where
  "strp [] s = (if s = [] then Some [] else None)"
| "strp (d # ds) s =
     first_some (map (\<lambda>(v, r). map_option ((#) (d, v)) (strp ds r)) (field_matches d s))"

definition strptime :: "string \<Rightarrow> string \<Rightarrow> exn + date" where
  "strptime s fmt =
     (case strp (parse_format fmt) s of
        None \<Rightarrow> Inl ValueError
      | Some fs \<Rightarrow>
          (let y = (case map_of fs Dir_Y of
                      Some v \<Rightarrow> int v
                    | None \<Rightarrow> (case map_of fs Dir_y of
                                 Some v \<Rightarrow> if v \<le> 68 then 2000 + int v else 1900 + int v
                               | None \<Rightarrow> 1900));
               m = (case map_of fs Dir_m of Some v \<Rightarrow> int v | None \<Rightarrow> 1);
               d = (case map_of fs Dir_d of Some v \<Rightarrow> int v | None \<Rightarrow> 1)
           in case datetime y (Some m) d of Inl e \<Rightarrow> Inl ValueError | Inr dt \<Rightarrow> Inr dt))"

text \<open>
  \<^verbatim>\<open>
  def format_date_string_d_mword_y(s):
      date = s.split()
      try:
          return datetime(
              int(date[-1]), Months.TRANSLATE_POLISH_TO_ENGLISH_FULL_CONJ.get(date[1]),
              int(date[0])
          ).strftime('%Y-%m-%d')
      except (IndexError, TypeError):
          return ''

  def format_date_string_mword_y(s):
      date = s.split()
      try:
          return datetime(int(date[-1]), Months.TRANSLATE_POLISH_TO_ENGLISH_FULL.get(date[0]), 1).strftime('%Y-%m-%d')
      except (IndexError, TypeError):
          return ''
  \<close>
  The tables of \<^verbatim>\<open>func_const.Months\<close> are not among the sources: each is a parameter,
  a map from month names to month numbers (\<^verbatim>\<open>get\<close> gives \<^verbatim>\<open>None\<close> for a name that
  is not a key).
\<close>

definition except_IndexError_TypeError :: "exn + 'a \<Rightarrow> 'a \<Rightarrow> exn + 'a" where
  "except_IndexError_TypeError r d =
     (case r of
        Inr v \<Rightarrow> Inr v
      | Inl e \<Rightarrow> if e = IndexError \<or> e = TypeError then Inr d else Inl e)"

definition format_date_string_d_mword_y :: "(string \<rightharpoonup> int) \<Rightarrow> string \<Rightarrow> exn + string" where
  "format_date_string_d_mword_y months_conj s =
     (let date = str_split s
      in except_IndexError_TypeError
           (and_then (py_index date (- 1)) (\<lambda>t_year.
            and_then (py_int t_year) (\<lambda>y.
            and_then (py_index date 1) (\<lambda>t_month.
            and_then (py_index date 0) (\<lambda>t_day.
            and_then (py_int t_day) (\<lambda>d.
            and_then (datetime y (months_conj t_month) d) (\<lambda>dt.
            Inr (strftime dt ''%Y-%m-%d''))))))))
           [])"

definition format_date_string_mword_y :: "(string \<rightharpoonup> int) \<Rightarrow> string \<Rightarrow> exn + string" where
  "format_date_string_mword_y months_full s =
     (let date = str_split s
      in except_IndexError_TypeError
           (and_then (py_index date (- 1)) (\<lambda>t_year.
            and_then (py_int t_year) (\<lambda>y.
            and_then (py_index date 0) (\<lambda>t_month.
            and_then (datetime y (months_full t_month) 1) (\<lambda>dt.
            Inr (strftime dt ''%Y-%m-%d''))))))
           [])"

text \<open>
  \<^verbatim>\<open>
  def format_date_string_d_m_y(s):
      date_list = s.split('.') if '.' in s else s.split('-')
      if len(date_list) == 3:
          if '.' in s:
              if len(date_list[2]) == 4:
                  return datetime.strptime(s, '%d.%m.%Y').strftime('%Y-%m-%d')
              if len(date_list[2]) == 2:
                  return datetime.strptime(s, '%d.%m.%y').strftime('%Y-%m-%d')
          if '-' in s:
              if len(date_list[2]) == 4:
                  return datetime.strptime(s, '%d-%m-%Y').strftime('%Y-%m-%d')
              if len(date_list[2]) == 2:
                  return datetime.strptime(s, '%d-%m-%y').strftime('%Y-%m-%d')
      else:
          return ''
  \<close>
  \<^verbatim>\<open>format_date_string_y_m_d\<close> tests \<^verbatim>\<open>date_list[0]\<close>, parses with the year first
  and has \<^verbatim>\<open>return s\<close> for a first component of length 4 with hyphens. A call that
  reaches the end of the body returns \<^verbatim>\<open>None\<close>: the result is \<open>None\<close> then, and
  \<open>Some\<close> of the string otherwise. \<open>reformat s fmt\<close> is
  \<^verbatim>\<open>datetime.strptime(s, fmt).strftime('%Y-%m-%d')\<close>, and \<open>hyphen\<close> the second
  \<^verbatim>\<open>if\<close> of the body.
\<close>

definition reformat :: "string \<Rightarrow> string \<Rightarrow> exn + string option" where
  "reformat s fmt = and_then (strptime s fmt) (\<lambda>dt. Inr (Some (strftime dt ''%Y-%m-%d'')))"

definition format_date_string_d_m_y :: "string \<Rightarrow> exn + string option" where
  "format_date_string_d_m_y s =
     (let date_list = (if str_contains s ''.'' then str_split_sep s ''.'' else str_split_sep s ''-'');
          hyphen = (if str_contains s ''-'' then
                      (if length (date_list ! 2) = 4 then reformat s ''%d-%m-%Y''
                       else if length (date_list ! 2) = 2 then reformat s ''%d-%m-%y''
                       else Inr None)
                    else Inr None)
      in if length date_list = 3 then
           (if str_contains s ''.'' then
              (if length (date_list ! 2) = 4 then reformat s ''%d.%m.%Y''
               else if length (date_list ! 2) = 2 then reformat s ''%d.%m.%y''
               else hyphen)
            else hyphen)
         else Inr (Some []))"

definition format_date_string_y_m_d :: "string \<Rightarrow> exn + string option" where
  "format_date_string_y_m_d s =
     (let date_list = (if str_contains s ''.'' then str_split_sep s ''.'' else str_split_sep s ''-'');
          hyphen = (if str_contains s ''-'' then
                      (if length (date_list ! 0) = 4 then Inr (Some s)
                       else if length (date_list ! 0) = 2 then reformat s ''%y-%m-%d''
                       else Inr None)
                    else Inr None)
      in if length date_list = 3 then
           (if str_contains s ''.'' then
              (if length (date_list ! 0) = 4 then reformat s ''%Y.%m.%d''
               else if length (date_list ! 0) = 2 then reformat s ''%y.%m.%d''
               else hyphen)
            else hyphen)
         else Inr (Some []))"

text \<open>A table of month names for the examples.\<close>

definition months_example :: "string \<rightharpoonup> int" where
  "months_example = map_of [(''stycznia'', 1), (''lutego'', 2), (''marca'', 3), (''kwietnia'', 4),
     (''maja'', 5), (''czerwca'', 6), (''lipca'', 7), (''sierpnia'', 8), (''listopada'', 11),
     (''grudnia'', 12)]"



section \<open>Facts about the model\<close>

subsection \<open>Searching, joining and the first match\<close>

lemma str_find_None: "str_find s sub = None \<longleftrightarrow> \<not> sublist sub s"
  by (induction s) (simp_all add: sublist_Cons_right)

lemma str_contains_sublist: "str_contains s sub \<longleftrightarrow> sublist sub s"
  by (simp add: str_contains_def str_find_None)

lemma map_append_Nil: "map ((@) []) xs = xs"
  by (induction xs) simp_all

lemma str_join_Nil: "str_join [] xs = concat xs"
  by (cases xs) (simp_all add: str_join_def map_append_Nil)

lemma str_join_chars: "str_join [] (map (\<lambda>c. [c]) xs) = xs"
  by (induction xs) (simp_all add: str_join_Nil)

lemma next_iter_filter_first:
  assumes "i < length xs" and "P (xs ! i)" and "\<And>j. j < i \<Longrightarrow> \<not> P (xs ! j)"
  shows "next_iter (filter P xs) d = xs ! i"
  using assms
proof (induction xs arbitrary: i)
  case Nil
  then show ?case by simp
next
  case (Cons x xs)
  show ?case
  proof (cases i)
    case 0
    with Cons.prems show ?thesis by (simp add: next_iter_def)
  next
    case (Suc k)
    from Cons.prems(3) [of 0] Suc have nx: "\<not> P x" by simp
    have "next_iter (filter P xs) d = xs ! k"
    proof (rule Cons.IH)
      show "k < length xs" using Cons.prems(1) Suc by simp
      show "P (xs ! k)" using Cons.prems(2) Suc by simp
      show "\<not> P (xs ! j)" if "j < k" for j
        using Cons.prems(3) [of "Suc j"] that Suc by simp
    qed
    with nx Suc show ?thesis by simp
  qed
qed

lemma next_iter_filter_none:
  assumes "\<And>x. x \<in> set xs \<Longrightarrow> \<not> P x"
  shows "next_iter (filter P xs) d = d"
proof -
  have "filter P xs = []" using assms by (simp add: filter_empty_conv)
  then show ?thesis by (simp add: next_iter_def)
qed

subsection \<open>Splitting and replacing\<close>



lemma str_split_sep_not_Nil: "str_split_sep s sep \<noteq> []"
proof (cases s)
  case Nil
  then show ?thesis by simp
next
  case (Cons c cs)
  then show ?thesis by (simp split: list.split)
qed



lemma str_join_Cons_nonempty: "xs \<noteq> [] \<Longrightarrow> str_join new (w # xs) = w @ new @ str_join new xs"
  by (cases xs) (simp_all add: str_join_def)

lemma str_replace_char:
  "str_replace s [a] new = concat (map (\<lambda>c. if c = a then new else [c]) s)"
proof -
  have "str_join new (str_split_sep s [a]) = concat (map (\<lambda>c. if c = a then new else [c]) s)"
  proof (induction s)
    case Nil
    then show ?case by (simp add: str_join_def)
  next
    case (Cons c cs)
    obtain w ws where ws: "str_split_sep cs [a] = w # ws"
      using str_split_sep_not_Nil [of cs "[a]"] by (cases "str_split_sep cs [a]") auto
    show ?case
    proof (cases "c = a")
      case True
      then have "str_split_sep (c # cs) [a] = [] # str_split_sep cs [a]" by simp
      then show ?thesis
        using Cons.IH True str_split_sep_not_Nil [of cs "[a]"]
        by (simp add: str_join_Cons_nonempty)
    next
      case False
      then have "str_split_sep (c # cs) [a] = (c # w) # ws" using ws by simp
      then show ?thesis using Cons.IH False ws by (simp add: str_join_def)
    qed
  qed
  then show ?thesis by (simp add: str_replace_def)
qed

lemma str_replace_char_char:
  "str_replace s [a] [b] = map (\<lambda>c. if c = a then b else c) s"
  by (induction s) (simp_all add: str_replace_char)

lemma str_replace_char_Nil: "str_replace s [a] [] = filter (\<lambda>c. c \<noteq> a) s"
  by (induction s) (simp_all add: str_replace_char)

lemma str_split_sep_no_occurrence:
  "sep \<noteq> [] \<Longrightarrow> \<not> sublist sep s \<Longrightarrow> str_split_sep s sep = [s]"
  by (induction s) (auto simp: sublist_Cons_right)

lemma sublist_str_strip: "sublist sub (str_strip s) \<Longrightarrow> sublist sub s"
proof -
  let ?t = "dropWhile isspace s"
  have "suffix (dropWhile isspace (rev ?t)) (rev ?t)" by (rule suffix_dropWhile)
  then have "prefix (rev (dropWhile isspace (rev ?t))) (rev (rev ?t))"
    by (simp only: suffix_to_prefix)
  then have a: "sublist (str_strip s) ?t" by (simp add: str_strip_def)
  have b: "sublist ?t s" by (rule suffix_imp_sublist [OF suffix_dropWhile])
  assume "sublist sub (str_strip s)"
  with a have "sublist sub ?t" by (rule sublist_order.order.trans [rotated])
  with b show "sublist sub s" by (rule sublist_order.order.trans [rotated])
qed


lemma sublist_cm_replace:
  assumes "sublist ''cm'' (str_replace s '','' ''.'')"
  shows "sublist ''cm'' s"
proof -
  let ?f = "\<lambda>c. if c = CHR '','' then CHR ''.'' else c"
  from assms obtain ps ss where "map ?f s = ps @ ''cm'' @ ss"
    by (auto simp: sublist_def str_replace_char_char)
  then obtain ps' r where s: "s = ps' @ r" and r: "map ?f r = ''cm'' @ ss"
    by (auto simp: map_eq_append_conv)
  from r obtain x y ss' where r': "r = x # y # ss'" and "?f x = CHR ''c''" and "?f y = CHR ''m''"
    by (auto simp: map_eq_Cons_conv)
  then have "x = CHR ''c''" and "y = CHR ''m''" by (auto split: if_splits)
  with s r' have "s = ps' @ ''cm'' @ ss'" by simp
  then show ?thesis unfolding sublist_def by blast
qed


lemma py_int_Nil: "py_int [] = Inl ValueError"
  by (simp add: py_int_def int_strip_def)





subsection \<open>Bytes\<close>

lemma py_bytes_mod: "py_bytes (map (\<lambda>byte. (uint byte + shift) mod 256) bs)
   = Inr (map (\<lambda>byte. word_of_int ((uint byte + shift) mod 256)) bs)"
  by (simp add: py_bytes_def list_all_iff)

lemma shift_zero_byte: "word_of_int ((uint (b :: byte) + 0) mod 256) = b"
proof -
  have "uint b < 256" using uint_lt2p [of b] by simp
  then show ?thesis by simp
qed

subsection \<open>Names of characters\<close>

lemma str_find_take_None:
  "str_find s sub = Some i \<Longrightarrow> sub \<noteq> [] \<Longrightarrow> str_find (take i s) sub = None"
proof (induction s arbitrary: i)
  case Nil
  then show ?case by (simp split: if_splits)
next
  case (Cons c cs)
  show ?case
  proof (cases "prefix sub (c # cs)")
    case True
    with Cons.prems show ?thesis by simp
  next
    case False
    with Cons.prems obtain j where j: "str_find cs sub = Some j" "i = Suc j" by auto
    have "\<not> prefix sub (c # take j cs)"
    proof
      assume "prefix sub (c # take j cs)"
      moreover have "prefix (c # take j cs) (c # cs)" by (simp add: take_is_prefix)
      ultimately have "prefix sub (c # cs)" by (rule prefix_order.trans)
      with False show False by simp
    qed
    with Cons.IH [OF j(1) Cons.prems(2)] j show ?thesis by simp
  qed
qed

lemma normalize_char_fixed:
  assumes "base_names_resolve uname ulookup"
  shows "normalize_string uname ulookup (normalize_char uname ulookup c) = normalize_char uname ulookup c"
proof (cases "\<exists>cname i r. uname c = Some cname \<and> str_find cname '' WITH'' = Some i
    \<and> ulookup (take i cname) = Some r")
  case True
  then obtain cname i r where h: "uname c = Some cname" "str_find cname '' WITH'' = Some i"
    "ulookup (take i cname) = Some r" by blast
  with assms obtain d where d: "r = [d]" "uname d = Some (take i cname)"
    unfolding base_names_resolve_def by blast
  have "str_find (take i cname) '' WITH'' = None"
    using h(2) by (rule str_find_take_None) simp
  with d have "normalize_char uname ulookup d = [d]" by (simp add: normalize_char_def)
  moreover from h d have "normalize_char uname ulookup c = [d]" by (simp add: normalize_char_def)
  ultimately show ?thesis by (simp add: normalize_string_def)
next
  case False
  then have "normalize_char uname ulookup c = [c]"
    by (auto simp: normalize_char_def split: option.splits)
  then show ?thesis by (simp add: normalize_string_def)
qed

lemma normalize_string_append:
  "normalize_string uname ulookup (xs @ ys) = normalize_string uname ulookup xs @ normalize_string uname ulookup ys"
  by (simp add: normalize_string_def)

subsection \<open>Dates\<close>

lemma sublist_single: "sublist [c] s \<longleftrightarrow> c \<in> set s"
  by (induction s) (auto simp: sublist_Cons_right)

lemma str_contains_char: "str_contains s [c] \<longleftrightarrow> c \<in> set s"
  by (simp add: str_contains_sublist sublist_single)

lemma str_split_sep_several:
  assumes "sep \<noteq> []" and "1 < length (str_split_sep s sep)"
  shows "str_contains s sep"
proof (rule ccontr)
  assume "\<not> str_contains s sep"
  then have "str_split_sep s sep = [s]"
    using assms(1) by (simp add: str_contains_sublist str_split_sep_no_occurrence)
  with assms(2) show False by simp
qed

lemma split_5_marca_abc: "str_split ''5 marca abc'' = [''5'', ''marca'', ''abc'']"
  by (simp add: isspace_def)

lemma split_marzec_abc: "str_split ''marzec abc'' = [''marzec'', ''abc'']"
  by (simp add: isspace_def)

lemma py_int_abc: "py_int ''abc'' = Inl ValueError"
  by (simp add: py_int_def int_strip_def int_isspace_def isdecimal_def)

lemma d_mword_y_abc: "format_date_string_d_mword_y months ''5 marca abc'' = Inl ValueError"
  unfolding format_date_string_d_mword_y_def split_5_marca_abc Let_def
  by (simp add: py_index_def and_then_def py_int_abc except_IndexError_TypeError_def)

lemma mword_y_abc: "format_date_string_mword_y months ''marzec abc'' = Inl ValueError"
  unfolding format_date_string_mword_y_def split_marzec_abc Let_def
  by (simp add: py_index_def and_then_def py_int_abc except_IndexError_TypeError_def)

lemma strp_no_field: "field_matches d s = [] \<Longrightarrow> strp (d # ds) s = None"
  by (simp add: first_some_def)

lemma parse_format_d_m_Y:
  "parse_format ''%d.%m.%Y'' = [Dir_d, Lit CHR ''.'', Dir_m, Lit CHR ''.'', Dir_Y]"
  by simp

lemma parse_format_Y_m_d:
  "parse_format ''%Y.%m.%d'' = [Dir_Y, Lit CHR ''.'', Dir_m, Lit CHR ''.'', Dir_d]"
  by simp

lemma not_isdecimal_a: "\<not> isdecimal CHR ''a''"
  by (simp add: isdecimal_def)

lemma strptime_letters: "strptime ''ab.cd.efgh'' ''%d.%m.%Y'' = Inl ValueError"
proof -
  have "field_matches Dir_d ''ab.cd.efgh'' = []"
    by (simp add: two_digits_def one_digit_def not_isdecimal_a)
  then have "strp (parse_format ''%d.%m.%Y'') ''ab.cd.efgh'' = None"
    unfolding parse_format_d_m_Y by (rule strp_no_field)
  then show ?thesis by (simp only: strptime_def option.case)
qed

lemma strptime_letters_Y: "strptime ''abcd.ef.gh'' ''%Y.%m.%d'' = Inl ValueError"
proof -
  have "field_matches Dir_Y ''abcd.ef.gh'' = []"
    by (simp add: not_isdecimal_a)
  then have "strp (parse_format ''%Y.%m.%d'') ''abcd.ef.gh'' = None"
    unfolding parse_format_Y_m_d by (rule strp_no_field)
  then show ?thesis by (simp only: strptime_def option.case)
qed

lemma d_m_y_letters: "format_date_string_d_m_y ''ab.cd.efgh'' = Inl ValueError"
proof -
  have sp: "str_split_sep ''ab.cd.efgh'' ''.'' = [''ab'', ''cd'', ''efgh'']" by simp
  have c: "str_contains ''ab.cd.efgh'' ''.''" by (simp add: str_contains_char)
  have "format_date_string_d_m_y ''ab.cd.efgh'' = reformat ''ab.cd.efgh'' ''%d.%m.%Y''"
    unfolding format_date_string_d_m_y_def Let_def sp by (simp add: c)
  then show ?thesis by (simp only: reformat_def strptime_letters and_then_def sum.case)
qed

lemma y_m_d_letters: "format_date_string_y_m_d ''abcd.ef.gh'' = Inl ValueError"
proof -
  have sp: "str_split_sep ''abcd.ef.gh'' ''.'' = [''abcd'', ''ef'', ''gh'']" by simp
  have c: "str_contains ''abcd.ef.gh'' ''.''" by (simp add: str_contains_char)
  have "format_date_string_y_m_d ''abcd.ef.gh'' = reformat ''abcd.ef.gh'' ''%Y.%m.%d''"
    unfolding format_date_string_y_m_d_def Let_def sp by (simp add: c)
  then show ?thesis by (simp only: reformat_def strptime_letters_Y and_then_def sum.case)
qed


lemma d_m_y_short: "format_date_string_d_m_y ''1.2.3'' = Inr None"
proof -
  have sp: "str_split_sep ''1.2.3'' ''.'' = [''1'', ''2'', ''3'']" by simp
  have c: "str_contains ''1.2.3'' ''.''" "\<not> str_contains ''1.2.3'' ''-''"
    by (simp_all add: str_contains_char)
  show ?thesis by (simp add: format_date_string_d_m_y_def c sp)
qed

lemma d_m_y_wrong_count:
  "length (if str_contains s ''.'' then str_split_sep s ''.'' else str_split_sep s ''-'') \<noteq> 3
   \<Longrightarrow> format_date_string_d_m_y s = Inr (Some [])"
  by (simp add: format_date_string_d_m_y_def Let_def)

lemma y_m_d_wrong_count:
  "length (if str_contains s ''.'' then str_split_sep s ''.'' else str_split_sep s ''-'') \<noteq> 3
   \<Longrightarrow> format_date_string_y_m_d s = Inr (Some [])"
  by (simp add: format_date_string_y_m_d_def Let_def)

lemma mword_no_tokens:
  assumes "str_split s = []"
  shows "format_date_string_d_mword_y months s = Inr []"
    and "format_date_string_mword_y months s = Inr []"
  using assms
  by (simp_all add: format_date_string_d_mword_y_def format_date_string_mword_y_def py_index_def
      and_then_def except_IndexError_TypeError_def)

lemma mword_unknown_month:
  assumes "str_split s = t_day # t_month # rest"
    and "py_int (last (t_day # t_month # rest)) = Inr y" and "c_int y"
    and "py_int t_day = Inr d"
    and "months t_month = None"
  shows "format_date_string_d_mword_y months s = Inr []"
proof -
  have "py_index (t_day # t_month # rest) (- 1) = Inr (last (t_day # t_month # rest))"
    by (simp add: py_index_def last_conv_nth nat_add_distrib)
  moreover have "py_index (t_day # t_month # rest) 1 = Inr t_month"
    and "py_index (t_day # t_month # rest) 0 = Inr t_day"
    by (simp_all add: py_index_def)
  moreover have "datetime y None d = Inl TypeError" using assms(3) by (simp add: datetime_def)
  ultimately show ?thesis
    using assms(2,4,5)
    unfolding format_date_string_d_mword_y_def Let_def assms(1)
    by (simp add: and_then_def except_IndexError_TypeError_def)
qed


subsection \<open>Decimals\<close>

lemma Decimal_two_periods: "Decimal ''1.2.3'' = Inl InvalidOperation"
  by (simp add: Decimal_def str_strip_def isspace_def isdecimal_def)

lemma isdigit_123: "str_isdigit (str_replace ''1.2.3'' ''.'' [])"
  by (simp add: str_replace_char_Nil str_isdigit_def isdigit_def)

lemma prep_zero_precision:
  "prep_decimal_from_string ''7'' 0 = Inr \<lparr>negative = False, coefficient = 70, exponent = - 1\<rparr>"
proof -
  have a: "str_isdigit (str_replace ''7'' ''.'' [])"
    by (simp add: str_replace_char_Nil str_isdigit_def isdigit_def)
  have b: "Decimal ''7'' = Inr \<lparr>negative = False, coefficient = 7, exponent = 0\<rparr>"
    by (simp add: Decimal_def str_strip_def isspace_def isdecimal_def digits_value_def)
  have c: "Decimal ''1.0'' = Inr \<lparr>negative = False, coefficient = 10, exponent = - 1\<rparr>"
    by (simp add: Decimal_def str_strip_def isspace_def isdecimal_def digits_value_def)
  have d: "num_digits 7 = 1" "num_digits 70 = 2" by (simp_all add: num_digits.simps)
  show ?thesis
    by (simp add: prep_decimal_from_string_def float_recip_pow10_str_def a b c d and_then_def
        quantize_def)
qed


lemma Decimal_raises: "Decimal s = Inl e \<Longrightarrow> e = InvalidOperation"
  by (simp add: Decimal_def Let_def split: if_splits option.splits)

lemma quantize_raises: "quantize d q = Inl e \<Longrightarrow> e = InvalidOperation"
  by (simp add: quantize_def Let_def split: if_splits)

lemma and_then_raises:
  assumes "and_then r f = Inl e"
    and "\<And>e'. r = Inl e' \<Longrightarrow> e' = x"
    and "\<And>v e'. f v = Inl e' \<Longrightarrow> e' = x"
  shows "e = x"
  using assms by (cases r) (auto simp: and_then_def)

lemma prep_decimal_ValueError_iff:
  "prep_decimal_from_string s precision_fp = Inl ValueError \<longleftrightarrow> 20 < precision_fp"
proof
  assume r: "prep_decimal_from_string s precision_fp = Inl ValueError"
  show "20 < precision_fp"
  proof (rule ccontr)
    assume "\<not> 20 < precision_fp"
    with r have "\<exists>a. and_then (Decimal a) (\<lambda>d. and_then (Decimal (float_recip_pow10_str precision_fp))
        (\<lambda>q. quantize d q)) = Inl ValueError"
      by (auto simp: prep_decimal_from_string_def Let_def split: if_splits)
    then obtain a where "and_then (Decimal a) (\<lambda>d. and_then (Decimal (float_recip_pow10_str precision_fp))
        (\<lambda>q. quantize d q)) = Inl ValueError" ..
    then have "ValueError = InvalidOperation"
      by (rule and_then_raises) (auto dest: Decimal_raises quantize_raises elim: and_then_raises)
    then show False by simp
  qed
next
  assume "20 < precision_fp"
  then show "prep_decimal_from_string s precision_fp = Inl ValueError"
    by (simp add: prep_decimal_from_string_def)
qed

subsection \<open>Quantizing plain decimals\<close>

lemma digits_value_foldl_bound:
  "list_all isdecimal ds \<Longrightarrow>
     foldl (\<lambda>a c. 10 * a + (of_char c - 48)) (a::nat) ds < (a + 1) * 10 ^ length ds"
proof (induction ds arbitrary: a)
  case Nil
  then show ?case by simp
next
  case (Cons c ds)
  from Cons.prems have "isdecimal c" by simp
  then have c: "of_char c - 48 \<le> (9::nat)" unfolding isdecimal_def Let_def by arith
  from Cons.prems have "list_all isdecimal ds" by simp
  then have "foldl (\<lambda>a c. 10 * a + (of_char c - 48)) (10 * a + (of_char c - 48)) ds
      < (10 * a + (of_char c - 48) + 1) * 10 ^ length ds" by (rule Cons.IH)
  also have "\<dots> \<le> (10 * a + 10) * 10 ^ length ds" using c by (intro mult_right_mono) simp_all
  also have "\<dots> = (a + 1) * 10 ^ length (c # ds)" by (simp add: algebra_simps)
  finally show ?case by simp
qed

lemma digits_value_bound: "list_all isdecimal ds \<Longrightarrow> digits_value ds < 10 ^ length ds"
  using digits_value_foldl_bound [of ds 0] by (simp add: digits_value_def)

lemma num_digits_le: "n < 10 ^ k \<Longrightarrow> 0 < k \<Longrightarrow> num_digits n \<le> k"
proof (induction k arbitrary: n)
  case 0
  then show ?case by simp
next
  case (Suc k)
  show ?case
  proof (cases "n < 10")
    case True
    then show ?thesis by (simp add: num_digits.simps)
  next
    case False
    with Suc.prems have k: "0 < k" by (cases k) auto
    from Suc.prems have "n div 10 < 10 ^ k" by (simp add: less_mult_imp_div_less mult.commute)
    then have "num_digits (n div 10) \<le> k" using k by (rule Suc.IH)
    with False show ?thesis by (subst num_digits.simps) simp
  qed
qed

lemma dropWhile_none: "list_all (\<lambda>x. \<not> P x) xs \<Longrightarrow> dropWhile P xs = xs"
  by (cases xs) simp_all

lemma str_strip_no_space: "list_all (\<lambda>x. \<not> isspace x) s \<Longrightarrow> str_strip s = s"
  by (simp add: str_strip_def dropWhile_none list_all_iff)

lemma isdecimal_plain:
  assumes "isdecimal c"
  shows "\<not> isspace c" "c \<noteq> CHR ''_''" "c \<noteq> CHR ''-''" "c \<noteq> CHR ''+''" "c \<noteq> CHR ''.''"
  using assms by (auto simp: isdecimal_def isspace_def Let_def)

lemma period_plain: "\<not> isspace CHR ''.''" "\<not> isdecimal CHR ''.''" "\<not> isdecimal CHR ''_''"
  by (simp_all add: isspace_def isdecimal_def)

lemma Decimal_plain:
  assumes "plain_decimal s ip fp"
  shows "Decimal s = Inr \<lparr>negative = False, coefficient = digits_value (ip @ fp),
           exponent = - int (length fp)\<rparr>"
proof -
  from assms have ip: "list_all isdecimal ip" and fp: "list_all isdecimal fp"
    and ne: "ip @ fp \<noteq> []" and s: "s = ip @ ''.'' @ fp \<or> (fp = [] \<and> s = ip)"
    by (simp_all add: plain_decimal_def)
  have "\<not> isspace c \<and> c \<noteq> CHR ''_''" if "c \<in> set s" for c
  proof -
    from s that ip fp have "isdecimal c \<or> c = CHR ''.''" by (auto simp: list_all_iff)
    then show ?thesis using isdecimal_plain(1,2) [of c] period_plain(1) by auto
  qed
  then have plain: "list_all (\<lambda>c. \<not> isspace c \<and> c \<noteq> CHR ''_'') s"
    by (simp add: list_all_iff)
  then have t: "filter (\<lambda>c. c \<noteq> CHR ''_'') (str_strip s) = s"
    by (simp add: str_strip_no_space list_all_iff)
  have sne: "s \<noteq> []" using s ne by auto
  have hd: "hd s \<noteq> CHR ''-''" "hd s \<noteq> CHR ''+''"
    using s ne ip by (cases ip; auto simp: isdecimal_plain)+
  have neg: "(case s of [] \<Rightarrow> False | c # _ \<Rightarrow> c = CHR ''-'') = False"
    using sne hd by (cases s) simp_all
  have u: "(case s of [] \<Rightarrow> [] | c # cs \<Rightarrow> if c = CHR ''-'' \<or> c = CHR ''+'' then cs else s) = s"
    using sne hd by (cases s) simp_all
  have tw: "takeWhile isdecimal s = ip"
    using s ip by (auto simp: takeWhile_tail period_plain list_all_iff)
  have tf: "takeWhile isdecimal fp = fp" "dropWhile isdecimal fp = []"
    using fp by (simp_all add: list_all_iff)
  from s show ?thesis
  proof
    assume e: "s = ip @ ''.'' @ fp"
    then have dw: "dropWhile isdecimal s = CHR ''.'' # fp"
      using ip by (simp add: dropWhile_append3 period_plain list_all_iff)
    show ?thesis
      unfolding Decimal_def t Let_def neg u tw dw using ne by (simp add: tf)
  next
    assume e: "fp = [] \<and> s = ip"
    then have dw: "dropWhile isdecimal s = []" using ip by (simp add: list_all_iff)
    show ?thesis
      unfolding Decimal_def t Let_def neg u tw dw using ne e by simp
  qed
qed

lemma Decimal_quantum:
  assumes "1 \<le> p" and "p \<le> 20"
  shows "Decimal (float_recip_pow10_str p)
     = Inr \<lparr>negative = False, coefficient = 1, exponent = - int p\<rparr>"
proof -
  from assms have "p = 1 \<or> p = 2 \<or> p = 3 \<or> p = 4 \<or> p = 5 \<or> p = 6 \<or> p = 7 \<or> p = 8 \<or> p = 9
      \<or> p = 10 \<or> p = 11 \<or> p = 12 \<or> p = 13 \<or> p = 14 \<or> p = 15 \<or> p = 16 \<or> p = 17 \<or> p = 18
      \<or> p = 19 \<or> p = 20" by arith
  then show ?thesis
    by (elim disjE)
      (simp_all add: float_recip_pow10_str_def Decimal_def str_strip_def isspace_def
        isdecimal_def signed_digits_def digits_value_def)
qed

lemma round_half_even_le: "round_half_even c k \<le> c div 10 ^ k + 1"
  by (simp add: round_half_even_def Let_def)

lemma quantize_fits:
  assumes c: "c < 10 ^ (m + k)" and mp: "m + p < 28" and p: "1 \<le> p"
  shows "quantize \<lparr>negative = False, coefficient = c, exponent = - int k\<rparr>
           \<lparr>negative = False, coefficient = q, exponent = - int p\<rparr>
         = Inr \<lparr>negative = False,
                coefficient = (if k \<le> p then c * 10 ^ (p - k) else round_half_even c (k - p)),
                exponent = - int p\<rparr>"
proof (cases "c = 0")
  case True
  then show ?thesis by (simp add: quantize_def round_half_even_def)
next
  case False
  with c have mk: "0 < m + k" by (cases "m + k") auto
  have nd: "num_digits c \<le> m + k" using c mk by (rule num_digits_le)
  then have first: "\<not> 28 < int (num_digits c) + (- int k) - (- int p)" using mp by simp
  show ?thesis
  proof (cases "k \<le> p")
    case True
    have "c * 10 ^ (p - k) < 10 ^ (m + k) * 10 ^ (p - k)" using c by simp
    also have "\<dots> = 10 ^ (m + p)" using True by (simp add: power_add [symmetric])
    finally have "num_digits (c * 10 ^ (p - k)) \<le> m + p" using p by (intro num_digits_le) simp_all
    then have "\<not> 28 < num_digits (c * 10 ^ (p - k))" using mp by simp
    moreover have "nat (- int k - - int p) = p - k" using True by simp
    ultimately show ?thesis using False first True by (simp add: quantize_def Let_def)
  next
    case False
    then have kp: "m + k = (m + p) + (k - p)" by simp
    have "c div 10 ^ (k - p) < 10 ^ (m + p)"
      using c unfolding kp power_add [of _ "m + p" "k - p"]
      by (simp add: less_mult_imp_div_less)
    then have "round_half_even c (k - p) < 10 ^ (m + p) + 1"
      using round_half_even_le [of c "k - p"] by simp
    also have "\<dots> \<le> 10 ^ Suc (m + p)" by simp
    finally have "num_digits (round_half_even c (k - p)) \<le> Suc (m + p)"
      by (intro num_digits_le) simp_all
    then have "\<not> 28 < num_digits (round_half_even c (k - p))" using mp by simp
    moreover have "nat (- int p - - int k) = k - p" using False by simp
    ultimately show ?thesis using \<open>c \<noteq> 0\<close> first False by (simp add: quantize_def Let_def)
  qed
qed

lemma isdecimal_isdigit: "isdecimal c \<Longrightarrow> isdigit c"
  by (simp add: isdecimal_def isdigit_def Let_def)

lemma filter_period_decimal:
  "list_all isdecimal xs \<Longrightarrow> filter (\<lambda>c. c \<noteq> CHR ''.'') xs = xs"
proof (induction xs)
  case Nil
  then show ?case by simp
next
  case (Cons a xs)
  then have "isdecimal a" by simp
  then have "a \<noteq> CHR ''.''" using period_plain(2) by blast
  with Cons show ?case by simp
qed

lemma plain_decimal_isdigit:
  assumes "plain_decimal s ip fp"
  shows "str_isdigit (str_replace s ''.'' [])"
proof -
  from assms have ip: "list_all isdecimal ip" and fp: "list_all isdecimal fp"
    and ne: "ip @ fp \<noteq> []" and s: "s = ip @ ''.'' @ fp \<or> (fp = [] \<and> s = ip)"
    by (simp_all add: plain_decimal_def)
  from s have "filter (\<lambda>c. c \<noteq> CHR ''.'') s = ip @ fp"
  proof
    assume "s = ip @ ''.'' @ fp"
    then show ?thesis by (simp add: filter_period_decimal ip fp)
  next
    assume "fp = [] \<and> s = ip"
    then show ?thesis by (simp add: filter_period_decimal ip)
  qed
  moreover have "list_all isdigit (ip @ fp)"
    using ip fp by (auto simp: list_all_iff intro: isdecimal_isdigit)
  ultimately show ?thesis using ne by (simp add: str_replace_char_Nil str_isdigit_def)
qed

lemma digits_value_zero: "digits_value ''0'' = 0"
  by (simp add: digits_value_def)

lemma Decimal_zero: "Decimal ''0'' = Inr \<lparr>negative = False, coefficient = 0, exponent = 0\<rparr>"
proof -
  have "plain_decimal ''0'' ''0'' []" by (simp add: plain_decimal_def isdecimal_def)
  from Decimal_plain [OF this] show ?thesis by (simp only: append_Nil2 digits_value_zero) simp
qed

lemma prep_decimal_not_numeric:
  assumes "1 \<le> p" and "p \<le> 20" and "\<not> str_isdigit (str_replace s ''.'' [])"
  shows "prep_decimal_from_string s p = Inr \<lparr>negative = False, coefficient = 0, exponent = - int p\<rparr>"
  using assms
  by (simp add: prep_decimal_from_string_def Let_def and_then_def Decimal_zero Decimal_quantum
      quantize_def)

lemma prep_decimal_plain:
  assumes "1 \<le> p" and "p \<le> 20" and pd: "plain_decimal s ip fp" and "length ip + p < 28"
  shows "prep_decimal_from_string s p
     = Inr \<lparr>negative = False,
            coefficient = (if length fp \<le> p then digits_value (ip @ fp) * 10 ^ (p - length fp)
                           else round_half_even (digits_value (ip @ fp)) (length fp - p)),
            exponent = - int p\<rparr>"
proof -
  from pd have "list_all isdecimal (ip @ fp)" by (simp add: plain_decimal_def)
  then have "digits_value (ip @ fp) < 10 ^ (length ip + length fp)"
    using digits_value_bound [of "ip @ fp"] by simp
  then have "quantize \<lparr>negative = False, coefficient = digits_value (ip @ fp), exponent = - int (length fp)\<rparr>
           \<lparr>negative = False, coefficient = 1, exponent = - int p\<rparr>
         = Inr \<lparr>negative = False,
            coefficient = (if length fp \<le> p then digits_value (ip @ fp) * 10 ^ (p - length fp)
                           else round_half_even (digits_value (ip @ fp)) (length fp - p)),
            exponent = - int p\<rparr>"
    using assms(4,1) by (rule quantize_fits)
  then show ?thesis
    using assms(1,2) plain_decimal_isdigit [OF pd]
    by (simp add: prep_decimal_from_string_def Let_def and_then_def Decimal_plain [OF pd]
        Decimal_quantum)
qed

lemma num_digits_ge: "10 ^ k \<le> n \<Longrightarrow> k < num_digits n"
proof (induction k arbitrary: n)
  case 0
  then show ?case by (subst num_digits.simps) simp
next
  case (Suc k)
  then have "10 ^ k \<le> n div 10" by (simp add: less_eq_div_iff_mult_less_eq mult.commute)
  then have "k < num_digits (n div 10)" by (rule Suc.IH)
  moreover have "\<not> n < 10"
  proof
    assume "n < 10"
    moreover have "(10::nat) \<le> 10 ^ Suc k" by simp
    ultimately show False using Suc.prems by simp
  qed
  ultimately show ?case by (subst num_digits.simps) simp
qed

lemma prep_decimal_long:
  "prep_decimal_from_string ''111111111111111111111111111'' 2 = Inl InvalidOperation"
proof -
  let ?s = "''111111111111111111111111111''"
  have pd: "plain_decimal ?s ?s []" by (simp add: plain_decimal_def isdecimal_def)
  have v: "digits_value ?s = 111111111111111111111111111" by (simp add: digits_value_def)
  have d: "Decimal ?s = Inr \<lparr>negative = False, coefficient = 111111111111111111111111111, exponent = 0\<rparr>"
    using Decimal_plain [OF pd] by (simp only: append_Nil2 v) simp
  have "(10::nat) ^ 26 \<le> 111111111111111111111111111" by simp
  then have n: "26 < num_digits 111111111111111111111111111" by (rule num_digits_ge)
  have q: "Decimal (float_recip_pow10_str 2)
      = Inr \<lparr>negative = False, coefficient = 1, exponent = - int 2\<rparr>"
    by (rule Decimal_quantum) simp_all
  show ?thesis
    using n plain_decimal_isdigit [OF pd]
    by (simp add: prep_decimal_from_string_def Let_def and_then_def d q quantize_def)
qed

lemma prep_decimal_superscript:
  "prep_decimal_from_string [CHR 0xB2] 2 = Inl InvalidOperation"
proof -
  have a: "str_isdigit (str_replace [CHR 0xB2] ''.'' [])"
    by (simp add: str_replace_char_Nil str_isdigit_def isdigit_def)
  have b: "Decimal [CHR 0xB2] = Inl InvalidOperation"
    by (simp add: Decimal_def str_strip_def isspace_def isdecimal_def)
  show ?thesis by (simp add: prep_decimal_from_string_def Let_def and_then_def a b)
qed

subsection \<open>The date parsers at single inputs\<close>

lemma d_mword_y_one_token:
  assumes "str_split s = [t]" and "py_int t = Inr y"
  shows "format_date_string_d_mword_y months s = Inr []"
  using assms(2)
  unfolding format_date_string_d_mword_y_def Let_def assms(1)
  by (simp add: py_index_def and_then_def except_IndexError_TypeError_def)

lemma mword_y_unknown_month:
  assumes "str_split s = t_month # rest"
    and "py_int (last (t_month # rest)) = Inr y" and "c_int y"
    and "months t_month = None"
  shows "format_date_string_mword_y months s = Inr []"
proof -
  have "py_index (t_month # rest) (- 1) = Inr (last (t_month # rest))"
    by (simp add: py_index_def last_conv_nth nat_add_distrib)
  moreover have "py_index (t_month # rest) 0 = Inr t_month"
    by (simp add: py_index_def)
  moreover have "datetime y None 1 = Inl TypeError" using assms(3) by (simp add: datetime_def)
  ultimately show ?thesis
    using assms(2,4)
    unfolding format_date_string_mword_y_def Let_def assms(1)
    by (simp add: and_then_def except_IndexError_TypeError_def)
qed

lemma split_marca_2021: "str_split ''marca 2021'' = [''marca'', ''2021'']"
  by (simp add: isspace_def)

lemma py_int_2021: "py_int ''2021'' = Inr 2021"
  by (simp add: py_int_def int_strip_def int_isspace_def isdecimal_def digits_value_def)

lemma py_int_marca: "py_int ''marca'' = Inl ValueError"
  by (simp add: py_int_def int_strip_def int_isspace_def isdecimal_def)

lemma d_mword_y_two_tokens:
  "format_date_string_d_mword_y months ''marca 2021'' = Inl ValueError"
  unfolding format_date_string_d_mword_y_def split_marca_2021 Let_def
  by (simp add: py_index_def and_then_def py_int_2021 py_int_marca except_IndexError_TypeError_def)

lemma split_5_foo_big: "str_split ''5 foo 99999999999'' = [''5'', ''foo'', ''99999999999'']"
  by (simp add: isspace_def)

lemma py_int_big: "py_int ''99999999999'' = Inr 99999999999"
  by (simp add: py_int_def int_strip_def int_isspace_def isdecimal_def digits_value_def)

lemma py_int_5: "py_int ''5'' = Inr 5"
  by (simp add: py_int_def int_strip_def int_isspace_def isdecimal_def digits_value_def)

lemma d_mword_y_big_year:
  "format_date_string_d_mword_y months ''5 foo 99999999999'' = Inl OverflowError"
  unfolding format_date_string_d_mword_y_def split_5_foo_big Let_def
  by (simp add: py_index_def and_then_def py_int_big py_int_5 datetime_def c_int_def
      except_IndexError_TypeError_def)



subsection \<open>Strings without decimal digits\<close>










subsection \<open>Two examples of the specification\<close>

lemma example_eng_capacity: "refine_eng_capacity ''1 598 cm3'' = Inr 1598"
proof -
  have r: "str_replace ''1 598 cm3'' '','' ''.'' = ''1 598 cm3''"
    by (simp add: str_replace_char_char)
  have st: "str_strip ''1 598 cm3'' = ''1 598 cm3''" "str_strip ''1 598 '' = ''1 598''"
    by (simp_all add: str_strip_def isspace_def)
  have sp: "str_split_sep ''1 598 cm3'' ''cm'' = [''1 598 '', ''3'']" by simp
  have tk: "str_split ''1 598'' = [''1'', ''598'']" by (simp add: isspace_def)
  have dg: "digit_tokens ''1 598'' = ''1598''"
    unfolding digit_tokens_def tk
    by (simp add: str_replace_char_Nil str_isdigit_def isdigit_def str_join_def)
  have i: "py_int ''1598'' = Inr 1598"
    by (simp add: py_int_def int_strip_def int_isspace_def isdecimal_def digits_value_def)
  show ?thesis
    unfolding refine_eng_capacity_def r st sp Let_def
    by (simp add: str_join_def st dg i except_ValueError_def)
qed

lemma range_2: "rev [0..<2] = [1, 0]" and range_4: "rev [0..<4] = [3, 2, 1, 0]"
  by (simp_all add: eval_nat_numeral)

lemma strftime_example: "strftime \<lparr>year = 2021, month = 3, day = 5\<rparr> ''%Y-%m-%d'' = ''2021-03-05''"
proof -
  have f: "parse_format ''%Y-%m-%d'' = [Dir_Y, Lit CHR ''-'', Dir_m, Lit CHR ''-'', Dir_d]"
    by simp
  show ?thesis
    unfolding strftime_def f by (simp add: zero_pad_def range_2 range_4)
qed

lemma field_d: "field_matches Dir_d ''05.03.2021'' = [(5, ''.03.2021'')]"
  by (simp add: two_digits_def one_digit_def isdecimal_def digits_value_def)

lemma field_m: "field_matches Dir_m ''03.2021'' = [(3, ''.2021'')]"
  by (simp add: two_digits_def one_digit_def isdecimal_def digits_value_def)

lemma field_Y: "field_matches Dir_Y ''2021'' = [(2021, [])]"
  by (simp add: isdecimal_def digits_value_def)

lemma field_dot: "field_matches (Lit CHR ''.'') (CHR ''.'' # r) = [(0, r)]"
  by simp

lemma strp_one: "field_matches d s = [(v, r)] \<Longrightarrow> strp ds r = Some fs \<Longrightarrow> strp (d # ds) s = Some ((d, v) # fs)"
  by (simp add: first_some_def)

lemma strp_example:
  "strp [Dir_d, Lit CHR ''.'', Dir_m, Lit CHR ''.'', Dir_Y] ''05.03.2021''
   = Some [(Dir_d, 5), (Lit CHR ''.'', 0), (Dir_m, 3), (Lit CHR ''.'', 0), (Dir_Y, 2021)]"
proof -
  have "strp [] [] = Some []" by simp
  then have "strp [Dir_Y] ''2021'' = Some [(Dir_Y, 2021)]" by (rule strp_one [OF field_Y])
  then have "strp [Lit CHR ''.'', Dir_Y] ''.2021'' = Some [(Lit CHR ''.'', 0), (Dir_Y, 2021)]"
    by (rule strp_one [OF field_dot])
  then have "strp [Dir_m, Lit CHR ''.'', Dir_Y] ''03.2021''
      = Some [(Dir_m, 3), (Lit CHR ''.'', 0), (Dir_Y, 2021)]"
    by (rule strp_one [OF field_m])
  then have "strp [Lit CHR ''.'', Dir_m, Lit CHR ''.'', Dir_Y] ''.03.2021''
      = Some [(Lit CHR ''.'', 0), (Dir_m, 3), (Lit CHR ''.'', 0), (Dir_Y, 2021)]"
    by (rule strp_one [OF field_dot])
  then show ?thesis by (rule strp_one [OF field_d])
qed

lemma strptime_example:
  "strptime ''05.03.2021'' ''%d.%m.%Y'' = Inr \<lparr>year = 2021, month = 3, day = 5\<rparr>"
  unfolding strptime_def parse_format_d_m_Y strp_example
  by (simp add: datetime_def c_int_def days_in_month_def)

lemma example_d_m_y: "format_date_string_d_m_y ''05.03.2021'' = Inr (Some ''2021-03-05'')"
proof -
  have sp: "str_split_sep ''05.03.2021'' ''.'' = [''05'', ''03'', ''2021'']" by simp
  have c: "str_contains ''05.03.2021'' ''.''" by (simp add: str_contains_char)
  have "format_date_string_d_m_y ''05.03.2021'' = reformat ''05.03.2021'' ''%d.%m.%Y''"
    unfolding format_date_string_d_m_y_def Let_def sp by (simp add: c)
  then show ?thesis
    by (simp only: reformat_def strptime_example and_then_def sum.case strftime_example)
qed

section \<open>Claims\<close>

text \<open>
  C8. For every string \<open>s\<close> and every ordered sequence of (substring, replacement) pairs,
  \<open>translate_word_containing_substring\<close> returns the replacement of the first pair, in
  pair order, whose substring occurs in \<open>s\<close>, and the empty string if no pair's
  substring occurs in \<open>s\<close>; the pairs \<open>[("abc","X"),("b","Y")]\<close> against \<open>"xabcx"\<close>
  give \<open>"X"\<close>.
\<close>

theorem C8_translate_first_match:
  "(\<forall>i < length pairs.
      sublist (fst (pairs ! i)) s \<and> (\<forall>j < i. \<not> sublist (fst (pairs ! j)) s)
      \<longrightarrow> translate_word_containing_substring s pairs = snd (pairs ! i))
   \<and> ((\<forall>p \<in> set pairs. \<not> sublist (fst p) s)
      \<longrightarrow> translate_word_containing_substring s pairs = [])
   \<and> translate_word_containing_substring ''xabcx'' [(''abc'', ''X''), (''b'', ''Y'')] = ''X''"
proof (intro conjI allI impI)
  fix i
  assume i: "i < length pairs"
    and h: "sublist (fst (pairs ! i)) s \<and> (\<forall>j < i. \<not> sublist (fst (pairs ! j)) s)"
  have "next_iter (filter (\<lambda>x. str_contains s (fst x)) pairs) ([], []) = pairs ! i"
    using i h by (intro next_iter_filter_first) (simp_all add: str_contains_sublist)
  then show "translate_word_containing_substring s pairs = snd (pairs ! i)"
    by (simp add: translate_word_containing_substring_def str_join_chars)
next
  assume "\<forall>p \<in> set pairs. \<not> sublist (fst p) s"
  then have "next_iter (filter (\<lambda>x. str_contains s (fst x)) pairs) ([], []) = ([], [])"
    by (intro next_iter_filter_none) (simp add: str_contains_sublist)
  then show "translate_word_containing_substring s pairs = []"
    by (simp add: translate_word_containing_substring_def str_join_def)
next
  show "translate_word_containing_substring ''xabcx'' [(''abc'', ''X''), (''b'', ''Y'')] = ''X''"
    by (simp add: translate_word_containing_substring_def str_contains_def next_iter_def
        str_join_def)
qed

theorem C8_translate_first_match_witness:
  "sublist ''b'' ''xabcx'' \<and> \<not> sublist ''q'' ''xabcx''
   \<and> translate_word_containing_substring ''xabcx'' [(''q'', ''W''), (''b'', ''Y''), (''abc'', ''X'')] = ''Y''
   \<and> translate_word_containing_substring ''xabcx'' [(''q'', ''W'')] = []"
proof -
  have a: "sublist ''b'' ''xabcx''" by (simp add: sublist_Cons_right)
  have b: "\<not> sublist ''q'' ''xabcx''" by (simp add: sublist_Cons_right)
  from C8_translate_first_match [of "[(''q'', ''W''), (''b'', ''Y''), (''abc'', ''X'')]" "''xabcx''"]
  have "translate_word_containing_substring ''xabcx'' [(''q'', ''W''), (''b'', ''Y''), (''abc'', ''X'')] = ''Y''"
    using a b by (auto simp: less_Suc_eq dest!: spec [of _ 1])
  moreover from C8_translate_first_match [of "[(''q'', ''W'')]" "''xabcx''"] b
  have "translate_word_containing_substring ''xabcx'' [(''q'', ''W'')] = []" by simp
  ultimately show ?thesis using a b by simp
qed




text \<open>
  C10. For every input string that does not contain the substring \<open>cm\<close>,
  \<open>refine_eng_capacity\<close> returns 0, also when the string is all digits, as \<open>"1598"\<close>
  is: without a \<open>cm\<close> the unit-stripping step (\<^verbatim>\<open>split('cm')[:-1]\<close>) drops the whole
  string.
\<close>

theorem C10_eng_capacity_without_cm: "(\<not> sublist ''cm'' s \<longrightarrow> refine_eng_capacity s = Inr 0)
   \<and> refine_eng_capacity ''1598'' = Inr 0"
proof -
  have g: "refine_eng_capacity s = Inr 0" if "\<not> sublist ''cm'' s" for s
  proof -
    let ?t = "str_strip (str_replace s '','' ''.'')"
    from that have "\<not> sublist ''cm'' ?t"
      using sublist_str_strip sublist_cm_replace by blast
    then have "str_split_sep ?t ''cm'' = [?t]"
      by (intro str_split_sep_no_occurrence) simp_all
    then show ?thesis
      by (simp add: refine_eng_capacity_def str_join_def str_strip_def digit_tokens_def
          py_int_Nil except_ValueError_def)
  qed
  have "\<not> sublist ''cm'' ''1598''" by (simp add: sublist_Cons_right)
  with g show ?thesis by blast
qed

theorem C10_eng_capacity_without_cm_witness:
  "\<not> sublist ''cm'' ''1598 cc'' \<and> refine_eng_capacity ''1598 cc'' = Inr 0"
proof -
  have h: "\<not> sublist ''cm'' ''1598 cc''" by (simp add: sublist_Cons_right)
  with C10_eng_capacity_without_cm [of "''1598 cc''"] show ?thesis by blast
qed

text \<open>
  C9. For every text, \<open>calculate_hash text "" 0\<close> equals \<open>calculate_md5 text\<close>; and
  for every text, salt and shift, \<open>calculate_hash text salt (shift + 256)\<close> equals
  \<open>calculate_hash text salt shift\<close>: the shift is applied modulo 256.
\<close>

theorem C9_hash_shift:
  "calculate_hash hashlib_md5 text [] 0 = Inr (calculate_md5 hashlib_md5 text)
   \<and> calculate_hash hashlib_md5 text salt (shift + 256) = calculate_hash hashlib_md5 text salt shift"
proof
  have m: "map (\<lambda>byte. word_of_int ((uint byte + 0) mod 256)) bs = bs" for bs :: "byte list"
    by (induction bs) (simp_all only: list.map shift_zero_byte)
  show "calculate_hash hashlib_md5 text [] 0 = Inr (calculate_md5 hashlib_md5 text)"
    unfolding calculate_hash_def calculate_md5_def Let_def py_bytes_mod m by simp
next
  have "(x + (shift + 256)) mod 256 = (x + shift) mod 256" for x :: int
    by (simp add: add.assoc [symmetric])
  then show "calculate_hash hashlib_md5 text salt (shift + 256) = calculate_hash hashlib_md5 text salt shift"
    by (simp add: calculate_hash_def)
qed

text \<open>
  C4. For every wrapped function and arguments, each of the three decorators returns
  the wrapped function's value unchanged when it does not raise; maps exactly the
  three failures timeout, not found and not interactable to its sentinel (\<open>None\<close>, the
  empty list, the empty string); and lets any other exception through unchanged. The
  state the wrapped function leaves is kept in every case.
\<close>

theorem C4_decorators:
  "(func args st = (Inr v, st') \<longrightarrow>
      wait_for func args st = (Inr v, st') \<and> wait_for_list func args st = (Inr v, st')
      \<and> get_func_or_eptstr func args st = (Inr v, st'))
   \<and> (func args st = (Inl e, st')
        \<and> e \<in> {TimeoutException, NoSuchElementException, ElementNotInteractableException} \<longrightarrow>
      wait_for func args st = (Inr PyNone, st') \<and> wait_for_list func args st = (Inr (PyList []), st')
      \<and> get_func_or_eptstr func args st = (Inr (PyStr []), st'))
   \<and> (func args st = (Inl e, st')
        \<and> e \<notin> {TimeoutException, NoSuchElementException, ElementNotInteractableException} \<longrightarrow>
      wait_for func args st = (Inl e, st') \<and> wait_for_list func args st = (Inl e, st')
      \<and> get_func_or_eptstr func args st = (Inl e, st'))"
  by (auto simp: wait_for_def wait_for_list_def get_func_or_eptstr_def contained_def)


theorem C4_decorators_witness:
  "wait_for lookup_example 0 5 = (Inr (PyObj 7), 6)
   \<and> wait_for lookup_example 1 5 = (Inr PyNone, 6)
   \<and> wait_for_list lookup_example 1 5 = (Inr (PyList []), 6)
   \<and> get_func_or_eptstr lookup_example 1 5 = (Inr (PyStr []), 6)
   \<and> get_func_or_eptstr lookup_example 2 5 = (Inl (OtherError ''WebDriverException''), 6)"
proof -
  have a: "lookup_example 0 5 = (Inr (PyObj 7), 6)"
    and b: "lookup_example 1 5 = (Inl TimeoutException, 6)"
    and c: "lookup_example 2 5 = (Inl (OtherError ''WebDriverException''), 6)"
    by (simp_all add: lookup_example_def)
  from a C4_decorators [of lookup_example 0 5 "PyObj 7" 6]
  have "wait_for lookup_example 0 5 = (Inr (PyObj 7), 6)" by blast
  moreover from b C4_decorators [of lookup_example 1 5 _ 6 TimeoutException]
  have "wait_for lookup_example 1 5 = (Inr PyNone, 6)"
    and "wait_for_list lookup_example 1 5 = (Inr (PyList []), 6)"
    and "get_func_or_eptstr lookup_example 1 5 = (Inr (PyStr []), 6)" by simp_all
  moreover from c C4_decorators [of lookup_example 2 5 _ 6 "OtherError ''WebDriverException''"]
  have "get_func_or_eptstr lookup_example 2 5 = (Inl (OtherError ''WebDriverException''), 6)"
    by simp
  ultimately show ?thesis by simp
qed

text \<open>
  C5. For every driver, \<open>buffer_until_page_fully_loaded\<close> reads the page once for the
  fingerprint and returns at once: the loop body never runs, so it never sleeps and
  never reads the page again, because the loop guard \<open>changed\<close> is false at the first
  test.
\<close>

theorem C5_page_loop_never_runs:
  "buffer_until_page_fully_loaded hashlib_md5 driver tsleep
     = Some (driver\<lparr>reads := Suc (reads driver), events := events driver @ [PageSource]\<rparr>)"
  by (simp add: buffer_until_page_fully_loaded_def page_loop.simps [where changed = False]
      page_source_def)


text \<open>
  C6. \<open>normalize_string\<close> is idempotent: normalizing a normalized string gives the same
  string, for every string, over a character database in which the name before
  \<open>WITH\<close> resolves to the character of that name.
\<close>

theorem C6_normalize_idempotent:
  assumes "base_names_resolve uname ulookup"
  shows "normalize_string uname ulookup (normalize_string uname ulookup s) = normalize_string uname ulookup s"
proof (induction s)
  case Nil
  show ?case by (simp add: normalize_string_def)
next
  case (Cons c cs)
  have "normalize_string uname ulookup (c # cs)
      = normalize_char uname ulookup c @ normalize_string uname ulookup cs"
    by (simp add: normalize_string_def)
  then show ?case
    using Cons.IH normalize_char_fixed [OF assms, of c] by (simp add: normalize_string_append)
qed

theorem C6_normalize_idempotent_witness:
  "base_names_resolve uname_excerpt ulookup_excerpt
   \<and> normalize_string uname_excerpt ulookup_excerpt [322, 233, 120, 7] = [108, 101, 120, 7]
   \<and> normalize_string uname_excerpt ulookup_excerpt
        (normalize_string uname_excerpt ulookup_excerpt [322, 233, 120, 7])
      = normalize_string uname_excerpt ulookup_excerpt [322, 233, 120, 7]"
proof -
  have h: "base_names_resolve uname_excerpt ulookup_excerpt"
    unfolding base_names_resolve_def
  proof (intro allI impI, elim conjE)
    fix c :: nat and cname i r
    assume n: "uname_excerpt c = Some cname" and f: "str_find cname '' WITH'' = Some i"
      and l: "ulookup_excerpt (take i cname) = Some r"
    from n f have "(c = 233 \<and> cname = ''LATIN SMALL LETTER E WITH ACUTE'')
        \<or> (c = 322 \<and> cname = ''LATIN SMALL LETTER L WITH STROKE'')"
      by (auto simp: uname_excerpt_def split: if_splits)
    then show "\<exists>d. r = [d] \<and> uname_excerpt d = Some (take i cname)"
    proof
      assume "c = 233 \<and> cname = ''LATIN SMALL LETTER E WITH ACUTE''"
      with f l show ?thesis by (auto simp: ulookup_excerpt_def uname_excerpt_def)
    next
      assume "c = 322 \<and> cname = ''LATIN SMALL LETTER L WITH STROKE''"
      with f l show ?thesis by (auto simp: ulookup_excerpt_def uname_excerpt_def)
    qed
  qed
  have v: "normalize_string uname_excerpt ulookup_excerpt [322, 233, 120, 7] = [108, 101, 120, 7]"
    by (simp add: normalize_string_def normalize_char_def uname_excerpt_def ulookup_excerpt_def)
  from C6_normalize_idempotent [OF h, of "[322, 233, 120, 7]"] h v show ?thesis by simp
qed

text \<open>
  C7. For every string \<open>s\<close> that contains no period and splits on the hyphen into
  exactly three components, the first of length 4, \<open>format_date_string_y_m_d\<close> returns
  \<open>s\<close> unchanged: nothing is reformatted and no calendar date is checked, so a string
  that is no date (as \<open>2021-99-99\<close>) comes back too.
\<close>

theorem C7_y_m_d_returns_input:
  assumes "CHR ''.'' \<notin> set s"
    and "length (str_split_sep s ''-'') = 3"
    and "length (hd (str_split_sep s ''-'')) = 4"
  shows "format_date_string_y_m_d s = Inr (Some s)"
proof -
  have dot: "\<not> str_contains s ''.''" using assms(1) by (simp add: str_contains_char)
  have hyp: "str_contains s ''-''" using assms(2) by (intro str_split_sep_several) simp_all
  have "str_split_sep s ''-'' \<noteq> []" using assms(2) by auto
  then have "str_split_sep s ''-'' ! 0 = hd (str_split_sep s ''-'')" by (simp add: hd_conv_nth)
  with assms(2,3) dot hyp show ?thesis by (simp add: format_date_string_y_m_d_def)
qed

theorem C7_y_m_d_returns_input_witness:
  "CHR ''.'' \<notin> set ''2021-99-99'' \<and> length (str_split_sep ''2021-99-99'' ''-'') = 3
   \<and> length (hd (str_split_sep ''2021-99-99'' ''-'')) = 4
   \<and> format_date_string_y_m_d ''2021-99-99'' = Inr (Some ''2021-99-99'')"
proof -
  have sp: "str_split_sep ''2021-99-99'' ''-'' = [''2021'', ''99'', ''99'']" by simp
  have a: "CHR ''.'' \<notin> set ''2021-99-99''" by simp
  have b: "length (str_split_sep ''2021-99-99'' ''-'') = 3" by (simp only: sp) simp
  have c: "length (hd (str_split_sep ''2021-99-99'' ''-'')) = 4" by (simp only: sp) simp
  from C7_y_m_d_returns_input [OF a b c] a b c show ?thesis by simp
qed

text \<open>
  C1, as the specification states it: for every input that does not match a date
  parser's shape (wrong token count, unknown month name, components that are not
  numbers), each of the four date parsers returns the empty string and never raises.
  It fails: with a component that is not a number each of the four parsers raises
  ValueError, which no handler of theirs catches (the two with a month name catch
  IndexError and TypeError, the two numeric ones have no handler); two tokens are a
  wrong token count and raise ValueError too; an unknown month name after a year beyond
  32 bits raises OverflowError; and \<open>format_date_string_d_m_y\<close> returns \<open>None\<close>, not
  the empty string, for three components whose last has neither 2 nor 4 characters.
\<close>

theorem C1_date_parsers_counterexample:
  "format_date_string_d_mword_y months_example ''5 marca abc'' = Inl ValueError
   \<and> format_date_string_mword_y months_example ''marzec abc'' = Inl ValueError
   \<and> format_date_string_d_m_y ''ab.cd.efgh'' = Inl ValueError
   \<and> format_date_string_y_m_d ''abcd.ef.gh'' = Inl ValueError
   \<and> format_date_string_d_m_y ''1.2.3'' = Inr None
   \<and> format_date_string_d_mword_y months_example ''marca 2021'' = Inl ValueError
   \<and> format_date_string_d_mword_y months_example ''5 foo 99999999999'' = Inl OverflowError"
  by (simp only: d_mword_y_abc mword_y_abc d_m_y_letters y_m_d_letters d_m_y_short
      d_mword_y_two_tokens d_mword_y_big_year simp_thms)

text \<open>
  C1, amended. \<open>format_date_string_d_mword_y\<close> and \<open>format_date_string_mword_y\<close> return
  the empty string when the input has no token; the first also when the input is one
  token that is an integer; and both when the year token (the last) is an integer
  within 32 bits, the day token (the first, for \<open>format_date_string_d_mword_y\<close>) is an
  integer and the month name is not in the table. \<open>format_date_string_d_m_y\<close> and
  \<open>format_date_string_y_m_d\<close> return the empty string when the input does not split
  into exactly three components (on the period if it has one, on the hyphen
  otherwise).
\<close>

theorem C1_date_parsers_empty_result:
  "(str_split s = [] \<longrightarrow>
      format_date_string_d_mword_y months_conj s = Inr []
      \<and> format_date_string_mword_y months_full s = Inr [])
   \<and> (str_split s = [t] \<and> py_int t = Inr y \<longrightarrow>
      format_date_string_d_mword_y months_conj s = Inr [])
   \<and> (str_split s = t_day # t_month # rest
        \<and> py_int (last (t_day # t_month # rest)) = Inr y \<and> c_int y \<and> py_int t_day = Inr d
        \<and> months_conj t_month = None \<longrightarrow>
      format_date_string_d_mword_y months_conj s = Inr [])
   \<and> (str_split s = t_month # rest
        \<and> py_int (last (t_month # rest)) = Inr y \<and> c_int y \<and> months_full t_month = None \<longrightarrow>
      format_date_string_mword_y months_full s = Inr [])
   \<and> (length (if str_contains s ''.'' then str_split_sep s ''.'' else str_split_sep s ''-'') \<noteq> 3 \<longrightarrow>
      format_date_string_d_m_y s = Inr (Some []) \<and> format_date_string_y_m_d s = Inr (Some []))"
  using mword_no_tokens [of s months_conj] mword_no_tokens(2) [of s months_full]
    d_mword_y_one_token [of s t y months_conj]
    mword_unknown_month [of s t_day t_month rest y d months_conj]
    mword_y_unknown_month [of s t_month rest y months_full]
    d_m_y_wrong_count [of s] y_m_d_wrong_count [of s]
  by blast

theorem C1_date_parsers_empty_result_witness:
  "format_date_string_d_mword_y months_example [] = Inr []
   \<and> format_date_string_mword_y months_example [] = Inr []
   \<and> format_date_string_d_mword_y months_example ''2021'' = Inr []
   \<and> format_date_string_d_mword_y months_example ''5 foo 2021'' = Inr []
   \<and> format_date_string_mword_y months_example ''foo 2021'' = Inr []
   \<and> format_date_string_d_m_y ''1.2'' = Inr (Some [])
   \<and> format_date_string_y_m_d ''1.2'' = Inr (Some [])"
proof -
  have s0: "str_split [] = []" by simp
  have s1: "str_split ''2021'' = [''2021'']" by (simp add: isspace_def)
  have s3: "str_split ''5 foo 2021'' = [''5'', ''foo'', ''2021'']" by (simp add: isspace_def)
  have s2: "str_split ''foo 2021'' = [''foo'', ''2021'']" by (simp add: isspace_def)
  have c: "c_int 2021" by (simp add: c_int_def)
  have m: "months_example ''foo'' = None" by (simp add: months_example_def)
  have l3: "py_int (last [''5'', ''foo'', ''2021'']) = Inr 2021" by (simp add: py_int_2021)
  have l2: "py_int (last [''foo'', ''2021'']) = Inr 2021" by (simp add: py_int_2021)
  have n: "length (if str_contains ''1.2'' ''.'' then str_split_sep ''1.2'' ''.''
      else str_split_sep ''1.2'' ''-'') \<noteq> 3"
    by (simp add: str_contains_char)
  from C1_date_parsers_empty_result [of "[]" months_example months_example] s0
  have "format_date_string_d_mword_y months_example [] = Inr []"
    and "format_date_string_mword_y months_example [] = Inr []" by blast+
  moreover from C1_date_parsers_empty_result [of "''2021''" months_example _ "''2021''" 2021] s1 py_int_2021
  have "format_date_string_d_mword_y months_example ''2021'' = Inr []" by blast
  moreover from C1_date_parsers_empty_result [of "''5 foo 2021''" months_example _ _ 2021 "''5''" "''foo''" "[''2021'']" 5]
    s3 l3 c py_int_5 m
  have "format_date_string_d_mword_y months_example ''5 foo 2021'' = Inr []" by blast
  moreover from C1_date_parsers_empty_result [of "''foo 2021''" _ months_example _ 2021 _ "''foo''" "[''2021'']"]
    s2 l2 c m
  have "format_date_string_mword_y months_example ''foo 2021'' = Inr []" by blast
  moreover from C1_date_parsers_empty_result [of "''1.2''"] n
  have "format_date_string_d_m_y ''1.2'' = Inr (Some [])"
    and "format_date_string_y_m_d ''1.2'' = Inr (Some [])" by blast+
  ultimately show ?thesis by simp
qed

text \<open>
  C2, as the specification states it: \<open>prep_decimal_from_string\<close> raises a validation
  error if and only if the precision exceeds 20, and for every precision up to 20 and
  every text the result is a decimal quantized to exactly that many fractional digits,
  with no other exception. It fails: the text \<open>1.2.3\<close> passes the digit test (without
  its periods it is \<open>123\<close>) and \<^verbatim>\<open>Decimal\<close> raises InvalidOperation on it, as on the
  superscript two, a digit for \<^verbatim>\<open>isdigit\<close>; a text of 27 digits needs more than the
  28 digits of the context at precision 2 and \<^verbatim>\<open>quantize\<close> raises InvalidOperation;
  and at precision 0 the result has one fractional digit (the quantum is
  \<^verbatim>\<open>str(1 / 1)\<close>, that is \<open>1.0\<close>).
\<close>

theorem C2_prep_decimal_counterexample:
  "prep_decimal_from_string ''1.2.3'' 2 = Inl InvalidOperation
   \<and> prep_decimal_from_string ''7'' 0
       = Inr \<lparr>negative = False, coefficient = 70, exponent = - 1\<rparr>
   \<and> prep_decimal_from_string ''111111111111111111111111111'' 2 = Inl InvalidOperation
   \<and> prep_decimal_from_string [CHR 0xB2] 2 = Inl InvalidOperation"
proof (intro conjI)
  show "prep_decimal_from_string ''1.2.3'' 2 = Inl InvalidOperation"
    by (simp add: prep_decimal_from_string_def isdigit_123 Decimal_two_periods and_then_def)
qed (rule prep_zero_precision prep_decimal_long prep_decimal_superscript)+

text \<open>
  C2, amended. \<open>prep_decimal_from_string\<close> raises ValueError if and only if the
  precision exceeds 20. For every precision \<open>p\<close> from 1 to 20: when the text without its
  periods is not all digits, the result is the zero decimal with exactly \<open>p\<close> fractional
  digits; when the text is a plain decimal numeral (decimal digits with at most one
  period) with fewer than \<open>28 - p\<close> digits before the period, the result is its value
  with exactly \<open>p\<close> fractional digits, rounded half to even where digits are dropped.
\<close>

theorem C2_prep_decimal_quantized:
  "(prep_decimal_from_string s p = Inl ValueError \<longleftrightarrow> 20 < p)
   \<and> (1 \<le> p \<and> p \<le> 20 \<and> \<not> str_isdigit (str_replace s ''.'' []) \<longrightarrow>
        prep_decimal_from_string s p
          = Inr \<lparr>negative = False, coefficient = 0, exponent = - int p\<rparr>)
   \<and> (1 \<le> p \<and> p \<le> 20 \<and> plain_decimal s ip fp \<and> length ip + p < 28 \<longrightarrow>
        prep_decimal_from_string s p
          = Inr \<lparr>negative = False,
                 coefficient = (if length fp \<le> p then digits_value (ip @ fp) * 10 ^ (p - length fp)
                                else round_half_even (digits_value (ip @ fp)) (length fp - p)),
                 exponent = - int p\<rparr>)"
  using prep_decimal_ValueError_iff [of s p] prep_decimal_not_numeric [of p s]
    prep_decimal_plain [of p s ip fp]
  by blast

theorem C2_prep_decimal_quantized_witness:
  "prep_decimal_from_string ''brak'' 2 = Inr \<lparr>negative = False, coefficient = 0, exponent = - 2\<rparr>
   \<and> prep_decimal_from_string ''12.345'' 2
       = Inr \<lparr>negative = False, coefficient = 1234, exponent = - 2\<rparr>
   \<and> prep_decimal_from_string ''12.345'' 21 = Inl ValueError"
proof -
  have a: "\<not> str_isdigit (str_replace ''brak'' ''.'' [])"
    by (simp add: str_replace_char_Nil str_isdigit_def isdigit_def)
  have b: "plain_decimal ''12.345'' ''12'' ''345''"
    by (simp add: plain_decimal_def isdecimal_def)
  have v: "digits_value ''12345'' = 12345" by (simp add: digits_value_def)
  have r: "round_half_even 12345 (Suc 0) = 1234" by (simp add: round_half_even_def)
  from C2_prep_decimal_quantized [of "''brak''" 2] a
  have "prep_decimal_from_string ''brak'' 2
      = Inr \<lparr>negative = False, coefficient = 0, exponent = - 2\<rparr>" by simp
  moreover from C2_prep_decimal_quantized [of "''12.345''" 2 "''12''" "''345''"] b
  have "prep_decimal_from_string ''12.345'' 2
      = Inr \<lparr>negative = False, coefficient = 1234, exponent = - 2\<rparr>" by (simp add: v r)
  moreover from C2_prep_decimal_quantized [of "''12.345''" 21]
  have "prep_decimal_from_string ''12.345'' 21 = Inl ValueError" by simp
  ultimately show ?thesis by simp
qed

end
